(* ===== verification/Chat_Prelude.thy ===== *)
theory Chat_Prelude
  imports Main
begin

text \<open>
  Shared vocabulary of the chat-server development: the C types the model uses
  (file descriptors, bytes, C strings), the two compile-time constants of
  \<open>src/server.c\<close> (\<open>MAX_CLIENTS\<close> and the size of the handler's read buffer), the
  named collections the component theories fill, and the generic list lemmas the
  invariant proofs share.
\<close>

section \<open>Named theorem collections\<close>

named_theorems step_simps "equations that evaluate one step of a thread of the server"
named_theorems inv_simps "facts that discharge the invariant obligations of a single step"

section \<open>C types\<close>

type_synonym fd = int \<comment> \<open>a POSIX file descriptor; \<open>-1\<close> is the error return of open\<close>
type_synonym cstring = "char list" \<comment> \<open>the bytes of a C character array\<close>

abbreviation NUL :: char where
  "NUL \<equiv> CHR 0x00"

text \<open>
  The C string stored in a character array: the bytes up to the first NUL.
  \<open>printf("%s")\<close>, \<open>strlen\<close> and \<open>strncmp\<close> all read an array this way.
\<close>

definition cstr :: "cstring \<Rightarrow> cstring" where
  "cstr bs = takeWhile (\<lambda>c. c \<noteq> NUL) bs"

section \<open>Constants of the source\<close>

definition MAX_CLIENTS :: int where
  "MAX_CLIENTS = 10"

definition HANDLER_BUFSIZE :: nat where
  "HANDLER_BUFSIZE = 256"

lemmas chat_constants [simp] = MAX_CLIENTS_def HANDLER_BUFSIZE_def

section \<open>Generic lemmas\<close>

lemma cstr_no_nul [simp]: "NUL \<notin> set bs \<Longrightarrow> cstr bs = bs"
  unfolding cstr_def by (induction bs) auto

lemma cstr_append_nul [simp]: "NUL \<notin> set bs \<Longrightarrow> cstr (bs @ NUL # rest) = bs"
  unfolding cstr_def by (induction bs) auto

lemma cstr_nil [simp]: "cstr [] = []"
  by (simp add: cstr_def)

lemma nul_notin_cstr [simp]: "NUL \<notin> set (cstr bs)"
  by (auto simp: cstr_def dest: set_takeWhileD)

lemma length_cstr_le: "length (cstr bs) \<le> length bs"
  by (simp add: cstr_def length_takeWhile_le)

lemma of_char_zero_iff: "of_char c = (0::nat) \<longleftrightarrow> c = NUL"
proof -
  have "of_char NUL = (0::nat)" by simp
  then show ?thesis by (metis of_char_eq_iff)
qed

text \<open>A prefix of a NUL-free string is not reached through the terminator.\<close>

lemma take_nul_eq_nul_free:
  assumes "NUL \<notin> set w" and "length w = n"
  shows "take n (s @ [NUL]) = w \<longleftrightarrow> take n s = w"
proof (cases "n \<le> length s")
  case True
  then show ?thesis by simp
next
  case False
  then have "NUL \<in> set (take n (s @ [NUL]))" by (simp add: take_append)
  moreover have "length (take n s) < n" using False by simp
  ultimately show ?thesis using assms by auto
qed

text \<open>Sums of per-element contributions over a list of threads, under an update.\<close>

lemma sum_list_map_update:
  fixes f :: "'a \<Rightarrow> int"
  assumes "k < length xs"
  shows "sum_list (map f (xs[k := x])) = sum_list (map f xs) - f (xs ! k) + f x"
  using assms
proof (induction xs arbitrary: k)
  case Nil
  then show ?case by simp
next
  case (Cons y ys)
  then show ?case by (cases k) auto
qed

lemma sum_list_map_lower:
  fixes f :: "'a \<Rightarrow> int"
  assumes "\<forall>x\<in>set xs. c \<le> f x"
  shows "c * int (length xs) \<le> sum_list (map f xs)"
  using assms by (induction xs) (auto simp: algebra_simps)

lemma sum_list_map_upper:
  fixes f :: "'a \<Rightarrow> int"
  assumes "\<forall>x\<in>set xs. f x \<le> c"
  shows "sum_list (map f xs) \<le> c * int (length xs)"
  using assms by (induction xs) (auto simp: algebra_simps)

end
