(* ===== verification/Registry.thy ===== *)
theory Registry
  imports Chat_Prelude
begin

text \<open>
  The connection registry: the three globals of \<open>src/server.c\<close> (lines 19--21) that
  the acceptance loop and every client handler share, and the two mutex operations
  through which the code touches them.  Threads are named by \<open>thread\<close>; the mutex
  records its holder.  The mutex operations model glibc's default (normal) mutex,
  which the code initialises with \<open>PTHREAD_MUTEX_INITIALIZER\<close>: locking blocks while
  another thread holds it, and unlocking clears the holder whoever calls it, since a
  normal mutex does not check ownership (POSIX leaves an unlock by a non-holder
  undefined; \<open>unlock_defined\<close> says when an unlock is within the standard).
\<close>

datatype thread = Main | Worker nat

record registry =
  clientsMutex :: "thread option"
  connectedClientsCount :: int
  exitFlag :: int

definition registry_init :: registry where
  "registry_init = \<lparr>clientsMutex = None, connectedClientsCount = 0, exitFlag = 0\<rparr>"

text \<open>\<open>None\<close> is "the call blocks": the caller cannot take this step now.\<close>

definition pthread_mutex_lock :: "thread \<Rightarrow> registry \<Rightarrow> registry option" where
  "pthread_mutex_lock t r =
     (if clientsMutex r = None then Some (r\<lparr>clientsMutex := Some t\<rparr>) else None)"

definition pthread_mutex_unlock :: "registry \<Rightarrow> registry" where
  "pthread_mutex_unlock r = r\<lparr>clientsMutex := None\<rparr>"

definition unlock_defined :: "thread \<Rightarrow> registry \<Rightarrow> bool" where
  "unlock_defined t r \<longleftrightarrow> clientsMutex r = Some t"

text \<open>
  The registry's contract in the spec (section 4.2), over the number of active
  workers: \<open>tryAdmit\<close> admits and counts one more worker exactly when fewer than the
  capacity are active.
\<close>

definition spec_try_admit :: "nat \<Rightarrow> nat option" where
  "spec_try_admit active = (if int active < MAX_CLIENTS then Some (Suc active) else None)"

declare pthread_mutex_lock_def [step_simps] pthread_mutex_unlock_def [step_simps]

lemma pthread_mutex_lock_Some [simp]:
  "pthread_mutex_lock t r = Some r' \<longleftrightarrow>
     clientsMutex r = None \<and> r' = r\<lparr>clientsMutex := Some t\<rparr>"
  by (auto simp: pthread_mutex_lock_def)

lemma pthread_mutex_lock_None [simp]:
  "pthread_mutex_lock t r = None \<longleftrightarrow> clientsMutex r \<noteq> None"
  by (simp add: pthread_mutex_lock_def)

lemma pthread_mutex_unlock_fields [simp]:
  "clientsMutex (pthread_mutex_unlock r) = None"
  "connectedClientsCount (pthread_mutex_unlock r) = connectedClientsCount r"
  "exitFlag (pthread_mutex_unlock r) = exitFlag r"
  by (simp_all add: pthread_mutex_unlock_def)

lemma registry_init_fields [simp]:
  "clientsMutex registry_init = None"
  "connectedClientsCount registry_init = 0"
  "exitFlag registry_init = 0"
  by (simp_all add: registry_init_def)

end
