(* ===== verification/ClientHandler.thy ===== *)
theory ClientHandler
  imports Registry
begin

text \<open>
  The per-connection worker, \<open>ClientHandler\<close> of \<open>src/server.c\<close> (lines 32--69), as a
  thread with a program counter.  Each location is one statement of the source that
  touches shared state (the registry, main's \<open>clientFd\<close> variable, stdout or a file
  descriptor), so that the interleaving with other threads is as fine as the code's.
  A step takes the thread's name (for the mutex), the environment's answer where the
  statement is a system call, the current value of main's \<open>clientFd\<close> (which the
  handler reads through the pointer it was given), and the registry; it returns the
  new registry, the new handler state and the effect on the outside world, or
  \<open>None\<close> where the thread cannot take that step (the mutex is held, or the input
  is not an answer the call can give).

  The 256-byte stack buffer is kept as the prefix of it that has been written:
  bytes beyond what \<open>read\<close> stored are indeterminate, and a \<open>printf("%s")\<close> that
  reaches them reads uninitialised or out-of-bounds memory (\<open>Overread\<close>).
\<close>

datatype hloc =
    HStart       \<comment> \<open>line 33: \<open>clientFd = *(int*)arg\<close>\<close>
  | HLock0       \<comment> \<open>line 37\<close>
  | HIncLoad     \<comment> \<open>line 38: \<open>connectedClientsCount++\<close>, the load\<close>
  | HIncStore    \<comment> \<open>line 38: the store of the loaded value plus one\<close>
  | HUnlock0     \<comment> \<open>line 39\<close>
  | HUnlock0b    \<comment> \<open>line 42: the second unlock, of a mutex the thread no longer holds\<close>
  | HRead        \<comment> \<open>line 45: \<open>read(clientFd, buffer, sizeof(buffer))\<close>, tested at 46 and 48\<close>
  | HPrintf      \<comment> \<open>line 47: \<open>printf("%s\n", buffer)\<close>\<close>
  | HLockEof     \<comment> \<open>line 50\<close>
  | HDecLoad     \<comment> \<open>line 51: \<open>connectedClientsCount--\<close>, the load\<close>
  | HDecStore    \<comment> \<open>line 51: the store of the loaded value minus one\<close>
  | HUnlockEof   \<comment> \<open>line 52, then \<open>break\<close>\<close>
  | HLockExit    \<comment> \<open>line 59\<close>
  | HTestExit    \<comment> \<open>line 60: \<open>if (exitFlag)\<close>\<close>
  | HUnlockBreak \<comment> \<open>line 61, then \<open>break\<close>\<close>
  | HUnlockLoop  \<comment> \<open>line 64, back to the read\<close>
  | HClose       \<comment> \<open>line 67: \<open>close(clientFd)\<close>\<close>
  | HExit        \<comment> \<open>line 68: \<open>pthread_exit\<close>; the thread is gone\<close>

record handler =
  hpc :: hloc
  hfd :: fd            \<comment> \<open>the handler's local \<open>clientFd\<close>\<close>
  buffer :: cstring    \<comment> \<open>the written prefix of \<open>char buffer[256]\<close>\<close>
  hreg :: int          \<comment> \<open>the value of the count loaded by \<open>++\<close> or \<open>--\<close>, not yet stored\<close>

text \<open>What \<open>read(clientFd, buffer, sizeof(buffer))\<close> returns: some bytes, 0, or -1.\<close>

datatype read_result = RBytes cstring | REof | RErr

datatype handler_input = HTick | HReadRes read_result

text \<open>One line of the server's stdout: a C string, or a read past the written buffer.\<close>

datatype out_line = Line cstring | Overread cstring

datatype handler_effect = HNone | HPrint out_line | HCloseFd fd

definition handler_new :: handler where
  "handler_new = \<lparr>hpc = HStart, hfd = 0, buffer = [], hreg = 0\<rparr>"

text \<open>\<open>read\<close> stores its bytes at the start of the buffer and leaves the rest as it was.\<close>

definition read_into :: "cstring \<Rightarrow> cstring \<Rightarrow> cstring" where
  "read_into bs buf = bs @ drop (length bs) buf"

definition printf_line :: "cstring \<Rightarrow> out_line" where
  "printf_line buf = (if NUL \<in> set buf then Line (cstr buf) else Overread buf)"

definition valid_read :: "cstring \<Rightarrow> bool" where
  "valid_read bs \<longleftrightarrow> bs \<noteq> [] \<and> length bs \<le> HANDLER_BUFSIZE"

text \<open>A lock step: the thread moves on once it holds the mutex.\<close>

definition lock_to :: "thread \<Rightarrow> registry \<Rightarrow> handler \<Rightarrow> hloc \<Rightarrow>
    (registry \<times> handler \<times> handler_effect) option" where
  "lock_to t r h l = map_option (\<lambda>r'. (r', h\<lparr>hpc := l\<rparr>, HNone)) (pthread_mutex_lock t r)"

definition unlock_to :: "registry \<Rightarrow> handler \<Rightarrow> hloc \<Rightarrow>
    (registry \<times> handler \<times> handler_effect) option" where
  "unlock_to r h l = Some (pthread_mutex_unlock r, h\<lparr>hpc := l\<rparr>, HNone)"

fun handler_step :: "hloc \<Rightarrow> thread \<Rightarrow> handler_input \<Rightarrow> fd \<Rightarrow> registry \<Rightarrow> handler \<Rightarrow>
    (registry \<times> handler \<times> handler_effect) option" where
  "handler_step HStart t HTick arg r h = Some (r, h\<lparr>hpc := HLock0, hfd := arg\<rparr>, HNone)"
| "handler_step HLock0 t HTick arg r h = lock_to t r h HIncLoad"
| "handler_step HIncLoad t HTick arg r h =
     Some (r, h\<lparr>hpc := HIncStore, hreg := connectedClientsCount r\<rparr>, HNone)"
| "handler_step HIncStore t HTick arg r h =
     Some (r\<lparr>connectedClientsCount := hreg h + 1\<rparr>, h\<lparr>hpc := HUnlock0\<rparr>, HNone)"
| "handler_step HUnlock0 t HTick arg r h = unlock_to r h HUnlock0b"
| "handler_step HUnlock0b t HTick arg r h = unlock_to r h HRead"
| "handler_step HRead t (HReadRes (RBytes bs)) arg r h =
     (if valid_read bs then Some (r, h\<lparr>hpc := HPrintf, buffer := read_into bs (buffer h)\<rparr>, HNone)
      else None)"
| "handler_step HPrintf t HTick arg r h = Some (r, h\<lparr>hpc := HLockExit\<rparr>, HPrint (printf_line (buffer h)))"
| "handler_step HRead t (HReadRes REof) arg r h = Some (r, h\<lparr>hpc := HLockEof\<rparr>, HNone)"
| "handler_step HRead t (HReadRes RErr) arg r h = Some (r, h\<lparr>hpc := HLockExit\<rparr>, HNone)"
| "handler_step HLockEof t HTick arg r h = lock_to t r h HDecLoad"
| "handler_step HDecLoad t HTick arg r h =
     Some (r, h\<lparr>hpc := HDecStore, hreg := connectedClientsCount r\<rparr>, HNone)"
| "handler_step HDecStore t HTick arg r h =
     Some (r\<lparr>connectedClientsCount := hreg h - 1\<rparr>, h\<lparr>hpc := HUnlockEof\<rparr>, HNone)"
| "handler_step HUnlockEof t HTick arg r h = unlock_to r h HClose"
| "handler_step HLockExit t HTick arg r h = lock_to t r h HTestExit"
| "handler_step HTestExit t HTick arg r h =
     Some (r, h\<lparr>hpc := (if exitFlag r \<noteq> 0 then HUnlockBreak else HUnlockLoop)\<rparr>, HNone)"
| "handler_step HUnlockBreak t HTick arg r h = unlock_to r h HClose"
| "handler_step HUnlockLoop t HTick arg r h = unlock_to r h HRead"
| "handler_step HClose t HTick arg r h = Some (r, h\<lparr>hpc := HExit\<rparr>, HCloseFd (hfd h))"
| "handler_step _ t _ arg r h = None"

text \<open>
  A handler running alone, its inputs given in order: the \<open>while (1)\<close> loop of
  lines 44--65 with no other thread interleaved.  It collects the effects.
\<close>

fun handler_run :: "thread \<Rightarrow> handler_input list \<Rightarrow> fd \<Rightarrow> registry \<Rightarrow> handler \<Rightarrow>
    (registry \<times> handler \<times> handler_effect list) option" where
  "handler_run t [] arg r h = Some (r, h, [])"
| "handler_run t (i # is) arg r h =
     (case handler_step (hpc h) t i arg r h of
        None \<Rightarrow> None
      | Some (r', h', e) \<Rightarrow>
          map_option (\<lambda>(r'', h'', es). (r'', h'', e # es)) (handler_run t is arg r' h'))"

text \<open>The handler's critical sections: the locations between a lock and its unlock.\<close>

definition handler_cs :: "hloc \<Rightarrow> bool" where
  "handler_cs l \<longleftrightarrow>
     l \<in> {HIncLoad, HIncStore, HUnlock0, HDecLoad, HDecStore, HUnlockEof,
           HTestExit, HUnlockBreak, HUnlockLoop}"

section \<open>What a handler contributes to the count\<close>

text \<open>
  What a handler has added to \<open>connectedClientsCount\<close> so far when no update is lost,
  counting the increment main made when it admitted it: one from main at line 100, one
  more once the handler itself has stored line 38, one less once it has stored line 51.
\<close>

definition contrib :: "handler \<Rightarrow> int" where
  "contrib h =
     (case hpc h of
        HStart \<Rightarrow> 1 | HLock0 \<Rightarrow> 1 | HIncLoad \<Rightarrow> 1 | HIncStore \<Rightarrow> 1
      | HUnlockEof \<Rightarrow> 1 | HClose \<Rightarrow> 1 | HExit \<Rightarrow> 1
      | _ \<Rightarrow> 2)"

text \<open>
  The handler's pending update is still exact: between the load and the store of
  \<open>++\<close> or \<open>--\<close> no other thread has changed the count.
\<close>

definition reg_fresh :: "registry \<Rightarrow> handler \<Rightarrow> bool" where
  "reg_fresh r h \<longleftrightarrow>
     (hpc h = HIncStore \<or> hpc h = HDecStore \<longrightarrow> hreg h = connectedClientsCount r)"

text \<open>
  Counting stores rather than net effect, which stays meaningful when updates are lost:
  the increments stored for a handler (main's at line 100, then its own at line 38) and
  the decrements it has stored (line 51; a handler on the exit branch counts one too,
  which only weakens the bounds below).  \<open>pending_update\<close> holds at the locations where a
  loaded value waits in \<open>hreg\<close> to be stored.
\<close>

definition incs_stored :: "handler \<Rightarrow> int" where
  "incs_stored h = (if hpc h \<in> {HStart, HLock0, HIncLoad, HIncStore} then 1 else 2)"

definition decs_stored :: "handler \<Rightarrow> int" where
  "decs_stored h = (if hpc h \<in> {HUnlockEof, HClose, HExit} then 1 else 0)"

definition pending_update :: "handler \<Rightarrow> bool" where
  "pending_update h \<longleftrightarrow> hpc h = HIncStore \<or> hpc h = HDecStore"

section \<open>Lemmas\<close>

declare lock_to_def [step_simps] unlock_to_def [step_simps] handler_cs_def [step_simps]

lemma handler_new_fields [simp]: "hpc handler_new = HStart" "buffer handler_new = []"
  by (simp_all add: handler_new_def)

text \<open>The four shapes of input a handler step can receive, for case splits.\<close>

lemma handler_input_cases [case_names Tick Bytes Eof Err]:
  obtains "i = HTick" | bs where "i = HReadRes (RBytes bs)" | "i = HReadRes REof"
    | "i = HReadRes RErr"
  by (metis handler_input.exhaust read_result.exhaust)

lemma contrib_bounds [inv_simps]: "1 \<le> contrib h" "contrib h \<le> 2"
  by (simp_all add: contrib_def split: hloc.splits)

lemma contrib_handler_new [simp]: "contrib handler_new = 1"
  by (simp add: contrib_def handler_new_def)

lemma stored_bounds [inv_simps]:
  "1 \<le> incs_stored h" "incs_stored h \<le> 2" "0 \<le> decs_stored h" "decs_stored h \<le> 1"
  by (simp_all add: incs_stored_def decs_stored_def)

lemma stored_handler_new [simp]:
  "incs_stored handler_new = 1" "decs_stored handler_new = 0" "\<not> pending_update handler_new"
  by (simp_all add: incs_stored_def decs_stored_def pending_update_def)

text \<open>A handler never writes \<open>exitFlag\<close>, and with the flag clear it never takes the exit branch.\<close>

lemma handler_step_exit_flag:
  assumes "handler_step (hpc h) t i arg r h = Some (r', h', e)"
    and "exitFlag r = 0" and "hpc h \<noteq> HUnlockBreak"
  shows "exitFlag r' = 0 \<and> hpc h' \<noteq> HUnlockBreak"
  using assms
  by (cases "hpc h"; cases i rule: handler_input_cases;
      auto simp: step_simps Let_def split: if_splits)

lemma handler_step_keeps_exit_flag:
  assumes "handler_step (hpc h) t i arg r h = Some (r', h', e)"
  shows "exitFlag r' = exitFlag r"
  using assms
  by (cases "hpc h"; cases i rule: handler_input_cases;
      auto simp: step_simps Let_def split: if_splits)

text \<open>Run without interference, a step changes the count by exactly what it contributes.\<close>

lemma handler_step_inv:
  assumes "handler_step (hpc h) t i arg r h = Some (r', h', e)"
    and "exitFlag r = 0" and "hpc h \<noteq> HUnlockBreak" and "reg_fresh r h"
  shows "connectedClientsCount r' - contrib h' = connectedClientsCount r - contrib h
         \<and> exitFlag r' = 0 \<and> hpc h' \<noteq> HUnlockBreak \<and> reg_fresh r' h'"
  using assms
  by (cases "hpc h"; cases i rule: handler_input_cases;
      auto simp: contrib_def reg_fresh_def step_simps Let_def split: if_splits)

text \<open>
  Under interference: if the count and a pending value lie in \<open>[lo, hi]\<close>, a step keeps
  them in the interval widened by the stores the step made.
\<close>

lemma handler_step_range:
  assumes "handler_step (hpc h) t i arg r h = Some (r', h', e)"
    and "lo \<le> connectedClientsCount r" and "connectedClientsCount r \<le> hi"
    and "pending_update h \<Longrightarrow> lo \<le> hreg h \<and> hreg h \<le> hi"
  shows "incs_stored h \<le> incs_stored h' \<and> decs_stored h \<le> decs_stored h'
         \<and> lo - (decs_stored h' - decs_stored h) \<le> connectedClientsCount r'
         \<and> connectedClientsCount r' \<le> hi + (incs_stored h' - incs_stored h)
         \<and> (pending_update h' \<longrightarrow> lo \<le> hreg h' \<and> hreg h' \<le> hi)"
  using assms
  by (cases "hpc h"; cases i rule: handler_input_cases;
      auto simp: incs_stored_def decs_stored_def pending_update_def step_simps Let_def
           split: if_splits)

lemma handler_run_count:
  assumes "handler_run t is arg r h = Some (r', h', es)"
    and "exitFlag r = 0" and "hpc h \<noteq> HUnlockBreak" and "reg_fresh r h"
  shows "connectedClientsCount r' - contrib h' = connectedClientsCount r - contrib h
         \<and> exitFlag r' = 0 \<and> hpc h' \<noteq> HUnlockBreak \<and> reg_fresh r' h'"
  using assms
proof (induction "is" arbitrary: r h es)
  case Nil
  then show ?case by simp
next
  case (Cons i "is")
  from Cons.prems(1) obtain r1 h1 e1 es1 where
    st: "handler_step (hpc h) t i arg r h = Some (r1, h1, e1)" and
    rest: "handler_run t is arg r1 h1 = Some (r', h', es1)"
    by (auto split: option.splits)
  from handler_step_inv [OF st Cons.prems(2,3,4)] have
    "connectedClientsCount r1 - contrib h1 = connectedClientsCount r - contrib h"
    and "exitFlag r1 = 0" and "hpc h1 \<noteq> HUnlockBreak" and "reg_fresh r1 h1" by auto
  with Cons.IH [OF rest] show ?case by simp
qed

text \<open>
  A handler step changes the holder of the mutex only for itself: it takes the mutex
  when it enters a critical section, and an unlock clears it whoever holds it.
\<close>

lemma handler_step_holder:
  assumes "handler_step (hpc h) t i arg r h = Some (r', h', e)"
    and "clientsMutex r = Some t \<Longrightarrow> handler_cs (hpc h)"
  shows "(clientsMutex r' = Some t \<longrightarrow> handler_cs (hpc h'))
         \<and> (\<forall>u. clientsMutex r' = Some u \<longrightarrow> u \<noteq> t \<longrightarrow> clientsMutex r = Some u)"
  using assms
  by (cases "hpc h"; cases i rule: handler_input_cases;
      auto simp: step_simps Let_def split: if_splits)

text \<open>
  When the mutex is held exactly by the threads in their critical sections, and the
  unlock of line 42 finds it free, a step keeps it so: the mutex changes only by this
  thread's lock or unlock.
\<close>

lemma handler_step_mutex:
  assumes "handler_step (hpc h) t i arg r h = Some (r', h', e)"
    and "handler_cs (hpc h) \<longleftrightarrow> clientsMutex r = Some t"
    and "hpc h = HUnlock0b \<Longrightarrow> clientsMutex r = None"
  shows "(handler_cs (hpc h') \<longleftrightarrow> clientsMutex r' = Some t)
         \<and> (clientsMutex r' = clientsMutex r
            \<or> clientsMutex r = None \<and> clientsMutex r' = Some t
            \<or> clientsMutex r = Some t \<and> clientsMutex r' = None)"
  using assms
  by (cases "hpc h"; cases i rule: handler_input_cases;
      auto simp: step_simps Let_def split: if_splits)

text \<open>A handler writes the count only by the store of line 38 or line 51.\<close>

lemma handler_step_writes:
  assumes "handler_step (hpc h) t i arg r h = Some (r', h', e)"
    and "connectedClientsCount r' \<noteq> connectedClientsCount r"
  shows "pending_update h"
  using assms
  by (cases "hpc h"; cases i rule: handler_input_cases;
      auto simp: pending_update_def step_simps Let_def split: if_splits)

lemma pending_update_cs: "pending_update h \<Longrightarrow> handler_cs (hpc h)"
  by (auto simp: pending_update_def handler_cs_def)

end
