(* ===== verification/ServerMain.thy ===== *)
theory ServerMain
  imports Registry
begin

text \<open>
  The server's \<open>main\<close> (\<open>src/server.c\<close>, lines 71--124): the start-up sequence that
  (re)creates and opens the named pipe, and the acceptance loop run by the main
  thread.  Start-up is a function of the results the three system calls return;
  every \<open>exit(EXIT_FAILURE)\<close> is an \<open>Inl\<close> error.  The loop is a thread with a
  program counter, one location per statement that touches shared state, in the
  style of the handler threads of \<open>ClientHandler\<close>; a step returns the new registry,
  the new main state and the effect (a thread spawned, a descriptor closed).
\<close>

section \<open>Start-up\<close>

datatype init_error =
    ErrRemovePipe  \<comment> \<open>line 74: unlink failed with errno other than ENOENT\<close>
  | ErrCreatePipe  \<comment> \<open>line 80: mkfifo failed\<close>
  | ErrOpenPipe    \<comment> \<open>line 87: open failed\<close>

text \<open>The answers of the environment to the three calls of start-up.\<close>

record init_env =
  unlink_ret :: int
  unlink_errno :: int
  mkfifo_ret :: int
  open_ret :: fd

definition ENOENT :: int where
  "ENOENT = 2"

definition server_init :: "init_env \<Rightarrow> init_error + fd" where
  "server_init e =
     (if unlink_ret e = -1 \<and> unlink_errno e \<noteq> ENOENT then Inl ErrRemovePipe
      else if mkfifo_ret e = -1 then Inl ErrCreatePipe
      else if open_ret e = -1 then Inl ErrOpenPipe
      else Inr (open_ret e))"

section \<open>The acceptance loop\<close>

datatype mloc =
    MOpen        \<comment> \<open>line 96: \<open>clientFd = open(SERVER_PIPE_NAME, O_RDONLY)\<close>\<close>
  | MLock1       \<comment> \<open>line 97\<close>
  | MCheck       \<comment> \<open>line 99: \<open>if (connectedClientsCount < MAX_CLIENTS)\<close>\<close>
  | MIncLoad     \<comment> \<open>line 100: \<open>connectedClientsCount++\<close>, the load\<close>
  | MIncStore    \<comment> \<open>line 100: the store of the loaded value plus one\<close>
  | MCreate      \<comment> \<open>line 103: \<open>pthread_create(&tid, NULL, ClientHandler, &clientFd)\<close>\<close>
  | MClose       \<comment> \<open>line 105: \<open>close(clientFd)\<close>\<close>
  | MUnlock1     \<comment> \<open>line 108\<close>
  | MLock2       \<comment> \<open>line 110\<close>
  | MTestExit    \<comment> \<open>line 111: \<open>if (exitFlag)\<close>\<close>
  | MUnlockBreak \<comment> \<open>line 112, then \<open>break\<close>\<close>
  | MUnlock2     \<comment> \<open>line 115, back to the open\<close>
  | MLockExit    \<comment> \<open>line 118\<close>
  | MSetExit     \<comment> \<open>line 119: \<open>exitFlag = 1\<close>\<close>
  | MUnlockExit  \<comment> \<open>line 120\<close>
  | MCloseServer \<comment> \<open>line 122: \<open>close(serverFd)\<close>\<close>
  | MReturn      \<comment> \<open>line 124: \<open>return 0\<close>; the process ends\<close>

record acceptor =
  mpc :: mloc
  clientFd :: fd      \<comment> \<open>main's local, whose address every handler is given\<close>
  serverFd :: fd
  mreg :: int         \<comment> \<open>the value of the count loaded by line 100, not yet stored\<close>

datatype main_input = MTick | MOpenRes fd

datatype main_effect = MNone | MSpawn | MCloseFd fd

definition acceptor_init :: "fd \<Rightarrow> acceptor" where
  "acceptor_init sfd = \<lparr>mpc = MOpen, clientFd = 0, serverFd = sfd, mreg = 0\<rparr>"

definition mlock_to :: "registry \<Rightarrow> acceptor \<Rightarrow> mloc \<Rightarrow>
    (registry \<times> acceptor \<times> main_effect) option" where
  "mlock_to r a l = map_option (\<lambda>r'. (r', a\<lparr>mpc := l\<rparr>, MNone)) (pthread_mutex_lock Main r)"

definition munlock_to :: "registry \<Rightarrow> acceptor \<Rightarrow> mloc \<Rightarrow>
    (registry \<times> acceptor \<times> main_effect) option" where
  "munlock_to r a l = Some (pthread_mutex_unlock r, a\<lparr>mpc := l\<rparr>, MNone)"

text \<open>
  The capacity test of line 99: it reads the count once and chooses the branch.  The
  increment of line 100 is a load and a store, two steps, between which a thread that
  does not respect the mutex may run.
\<close>

definition admit :: "registry \<Rightarrow> acceptor \<Rightarrow> (registry \<times> acceptor \<times> main_effect) option" where
  "admit r a =
     Some (r, a\<lparr>mpc := (if connectedClientsCount r < MAX_CLIENTS then MIncLoad else MClose)\<rparr>,
           MNone)"

text \<open>The main thread's critical sections: the locations between a lock and its unlock.\<close>

definition main_cs :: "mloc \<Rightarrow> bool" where
  "main_cs l \<longleftrightarrow>
     l \<in> {MCheck, MIncLoad, MIncStore, MCreate, MClose, MUnlock1,
           MTestExit, MUnlockBreak, MUnlock2, MSetExit, MUnlockExit}"

fun main_step :: "mloc \<Rightarrow> main_input \<Rightarrow> registry \<Rightarrow> acceptor \<Rightarrow>
    (registry \<times> acceptor \<times> main_effect) option" where
  "main_step MOpen (MOpenRes fd) r a = Some (r, a\<lparr>mpc := MLock1, clientFd := fd\<rparr>, MNone)"
| "main_step MLock1 MTick r a = mlock_to r a MCheck"
| "main_step MCheck MTick r a = admit r a"
| "main_step MIncLoad MTick r a = Some (r, a\<lparr>mpc := MIncStore, mreg := connectedClientsCount r\<rparr>, MNone)"
| "main_step MIncStore MTick r a =
     Some (r\<lparr>connectedClientsCount := mreg a + 1\<rparr>, a\<lparr>mpc := MCreate\<rparr>, MNone)"
| "main_step MCreate MTick r a = Some (r, a\<lparr>mpc := MUnlock1\<rparr>, MSpawn)"
| "main_step MClose MTick r a = Some (r, a\<lparr>mpc := MUnlock1\<rparr>, MCloseFd (clientFd a))"
| "main_step MUnlock1 MTick r a = munlock_to r a MLock2"
| "main_step MLock2 MTick r a = mlock_to r a MTestExit"
| "main_step MTestExit MTick r a =
     Some (r, a\<lparr>mpc := (if exitFlag r \<noteq> 0 then MUnlockBreak else MUnlock2)\<rparr>, MNone)"
| "main_step MUnlockBreak MTick r a = munlock_to r a MLockExit"
| "main_step MUnlock2 MTick r a = munlock_to r a MOpen"
| "main_step MLockExit MTick r a = mlock_to r a MSetExit"
| "main_step MSetExit MTick r a = Some (r\<lparr>exitFlag := 1\<rparr>, a\<lparr>mpc := MUnlockExit\<rparr>, MNone)"
| "main_step MUnlockExit MTick r a = munlock_to r a MCloseServer"
| "main_step MCloseServer MTick r a = Some (r, a\<lparr>mpc := MReturn\<rparr>, MCloseFd (serverFd a))"
| "main_step _ _ r a = None"

text \<open>
  The increment main has stored for a handler it has not yet created (between line 100
  and line 103).
\<close>

definition main_pending :: "acceptor \<Rightarrow> int" where
  "main_pending a = (if mpc a = MCreate then 1 else 0)"

text \<open>
  What the code's capacity test is meant to guarantee while main is admitting: the
  count it tested is below \<open>MAX_CLIENTS\<close> until it stores the increment.
\<close>

definition admit_bound :: "registry \<Rightarrow> acceptor \<Rightarrow> bool" where
  "admit_bound r a \<longleftrightarrow>
     (mpc a = MIncLoad \<longrightarrow> connectedClientsCount r < MAX_CLIENTS)
     \<and> (mpc a = MIncStore \<longrightarrow> mreg a < MAX_CLIENTS)
     \<and> (mpc a = MCreate \<longrightarrow> connectedClientsCount r \<le> MAX_CLIENTS)"

text \<open>
  How many more threads main can create before it leaves the loop, once \<open>exitFlag\<close> is
  set: one if it has not yet passed \<open>pthread_create\<close> in the current iteration, or has
  read the flag clear at line 111 and will go round again; none after that.
\<close>

definition admissions_left :: "mloc \<Rightarrow> nat" where
  "admissions_left l = (if l \<in> {MOpen, MLock1, MCheck, MIncLoad, MIncStore, MCreate, MUnlock2} then 1 else 0)"

section \<open>Lemmas\<close>

declare mlock_to_def [step_simps] munlock_to_def [step_simps] admit_def [step_simps]
  main_cs_def [step_simps]

lemma main_step_holder:
  assumes "main_step (mpc a) i r a = Some (r', a', e)"
    and "clientsMutex r = Some Main \<Longrightarrow> main_cs (mpc a)"
  shows "(clientsMutex r' = Some Main \<longrightarrow> main_cs (mpc a'))
         \<and> (\<forall>u. clientsMutex r' = Some u \<longrightarrow> u \<noteq> Main \<longrightarrow> clientsMutex r = Some u)"
  using assms
  by (cases "mpc a"; cases i;
      auto simp: step_simps split: if_splits)

text \<open>
  Under interference: a step of main keeps the count and its pending value in
  \<open>[lo, hi]\<close> widened by the increments it stored, whether still pending or given to a
  new handler.
\<close>

lemma main_step_range:
  assumes "main_step (mpc a) i r a = Some (r', a', e)"
    and "lo \<le> connectedClientsCount r" and "connectedClientsCount r \<le> hi"
    and "mpc a = MIncStore \<Longrightarrow> lo \<le> mreg a \<and> mreg a \<le> hi"
  shows "main_pending a \<le> main_pending a' + (if e = MSpawn then 1 else 0)
         \<and> lo \<le> connectedClientsCount r'
         \<and> connectedClientsCount r'
               \<le> hi + (main_pending a' + (if e = MSpawn then 1 else 0) - main_pending a)
         \<and> (mpc a' = MIncStore \<longrightarrow> lo \<le> mreg a' \<and> mreg a' \<le> hi)"
  using assms
  by (cases "mpc a"; cases i;
      auto simp: main_pending_def step_simps split: if_splits)

lemma main_step_mutex:
  assumes "main_step (mpc a) i r a = Some (r', a', e)"
    and "main_cs (mpc a) \<longleftrightarrow> clientsMutex r = Some Main"
  shows "(main_cs (mpc a') \<longleftrightarrow> clientsMutex r' = Some Main)
         \<and> (clientsMutex r' = clientsMutex r
            \<or> clientsMutex r = None \<and> clientsMutex r' = Some Main
            \<or> clientsMutex r = Some Main \<and> clientsMutex r' = None)"
  using assms
  by (cases "mpc a"; cases i;
      auto simp: step_simps split: if_splits)

text \<open>
  Main writes the count only by the store of line 100; when its register is still the
  count, that store adds exactly the increment main then holds pending.
\<close>

lemma main_step_exact:
  assumes "main_step (mpc a) i r a = Some (r', a', e)"
    and "mpc a = MIncStore \<Longrightarrow> mreg a = connectedClientsCount r"
  shows "connectedClientsCount r' =
           connectedClientsCount r + (main_pending a' + (if e = MSpawn then 1 else 0) - main_pending a)
         \<and> (mpc a' = MIncStore \<longrightarrow> mreg a' = connectedClientsCount r')
         \<and> (connectedClientsCount r' \<noteq> connectedClientsCount r \<longrightarrow> mpc a = MIncStore)"
  using assms
  by (cases "mpc a"; cases i;
      auto simp: main_pending_def step_simps split: if_splits)

lemma main_step_admit_bound:
  assumes "main_step (mpc a) i r a = Some (r', a', e)" and "admit_bound r a"
  shows "admit_bound r' a'"
  using assms
  by (cases "mpc a"; cases i;
      auto simp: admit_bound_def step_simps split: if_splits)

text \<open>Main creates a thread only at line 103, without touching the registry.\<close>

lemma main_step_spawn:
  assumes "main_step (mpc a) i r a = Some (r', a', MSpawn)"
  shows "mpc a = MCreate \<and> r' = r"
  using assms
  by (cases "mpc a"; cases i;
      auto simp: step_simps split: if_splits)

text \<open>
  With \<open>exitFlag\<close> set, main never clears it and each thread it creates uses up its
  remaining admission.
\<close>

lemma main_step_after_shutdown:
  assumes "main_step (mpc a) i r a = Some (r', a', e)" and "exitFlag r \<noteq> 0"
  shows "exitFlag r' \<noteq> 0
         \<and> (if e = MSpawn then 1 else 0) + admissions_left (mpc a') \<le> admissions_left (mpc a)"
  using assms
  by (cases "mpc a"; cases i;
      auto simp: admissions_left_def step_simps split: if_splits)

end
