(* ===== verification/Server.thy ===== *)
theory Server
  imports ClientHandler ServerMain
begin

text \<open>
  The whole server process after a successful start-up: the registry, the main
  thread running the acceptance loop, one handler per \<open>pthread_create\<close> (numbered
  by creation order, \<open>Worker k\<close> being the \<open>k\<close>-th element of \<open>handlers\<close>), the
  descriptors closed so far and the lines written to stdout.  A step of the system
  is one step of one thread, chosen by the scheduler together with the
  environment's answer to that thread's system call (\<open>event\<close>), so every
  interleaving of the threads is a run.  A handler reads main's \<open>clientFd\<close> at the
  moment it executes line 33, which is how the pointer passed to
  \<open>pthread_create\<close> is modelled.  Once \<open>main\<close> has returned, the process is gone and
  no thread steps.

  \<open>server_inv\<close> is the invariant every reachable state satisfies: no thread ever sets
  \<open>exitFlag\<close>, so neither main nor any handler leaves its loop by the exit branch.
  \<open>holder_inv\<close> says that the holder of the mutex is always inside one of its own
  critical sections; \<open>count_range_inv\<close> that the count stays between the decrements and the increments
  stored, however the loads and stores of different threads interleave.
\<close>

section \<open>State and steps\<close>

record server =
  reg :: registry
  acc :: acceptor
  handlers :: "handler list"
  closed :: "fd list"
  stdout :: "out_line list"

definition server_start :: "fd \<Rightarrow> server" where
  "server_start sfd =
     \<lparr>reg = registry_init, acc = acceptor_init sfd, handlers = [], closed = [],
      stdout = [Line ''Server initialized'']\<rparr>"

datatype event = EvMain main_input | EvHandler nat handler_input

fun apply_main_effect :: "main_effect \<Rightarrow> server \<Rightarrow> server" where
  "apply_main_effect MNone s = s"
| "apply_main_effect MSpawn s = s\<lparr>handlers := handlers s @ [handler_new]\<rparr>"
| "apply_main_effect (MCloseFd fd) s = s\<lparr>closed := closed s @ [fd]\<rparr>"

fun apply_handler_effect :: "handler_effect \<Rightarrow> server \<Rightarrow> server" where
  "apply_handler_effect HNone s = s"
| "apply_handler_effect (HPrint l) s = s\<lparr>stdout := stdout s @ [l]\<rparr>"
| "apply_handler_effect (HCloseFd fd) s = s\<lparr>closed := closed s @ [fd]\<rparr>"

fun sys_step :: "event \<Rightarrow> server \<Rightarrow> server option" where
  "sys_step (EvMain i) s =
     (case main_step (mpc (acc s)) i (reg s) (acc s) of
        None \<Rightarrow> None
      | Some (r, a, e) \<Rightarrow> Some (apply_main_effect e (s\<lparr>reg := r, acc := a\<rparr>)))"
| "sys_step (EvHandler k i) s =
     (if k < length (handlers s) \<and> mpc (acc s) \<noteq> MReturn
      then (case handler_step (hpc (handlers s ! k)) (Worker k) i (clientFd (acc s))
                   (reg s) (handlers s ! k) of
              None \<Rightarrow> None
            | Some (r, h, e) \<Rightarrow>
                Some (apply_handler_effect e (s\<lparr>reg := r, handlers := (handlers s)[k := h]\<rparr>)))
      else None)"

fun run :: "event list \<Rightarrow> server \<Rightarrow> server option" where
  "run [] s = Some s"
| "run (e # es) s = (case sys_step e s of None \<Rightarrow> None | Some s' \<Rightarrow> run es s')"

inductive reach :: "server \<Rightarrow> bool" where
  start: "server_init e = Inr sfd \<Longrightarrow> reach (server_start sfd)"
| step: "reach s \<Longrightarrow> sys_step ev s = Some s' \<Longrightarrow> reach s'"

section \<open>The registry invariant\<close>

definition main_in_loop :: "mloc \<Rightarrow> bool" where
  "main_in_loop l \<longleftrightarrow>
     l \<in> {MOpen, MLock1, MCheck, MIncLoad, MIncStore, MCreate, MClose, MUnlock1,
           MLock2, MTestExit, MUnlock2}"

definition server_inv :: "server \<Rightarrow> bool" where
  "server_inv s \<longleftrightarrow>
     exitFlag (reg s) = 0
     \<and> main_in_loop (mpc (acc s))
     \<and> (\<forall>h\<in>set (handlers s). hpc h \<noteq> HUnlockBreak)"

section \<open>Critical sections\<close>

text \<open>
  The statements the code executes between a \<open>pthread_mutex_lock\<close> and the matching
  \<open>pthread_mutex_unlock\<close>: the code relies on no two threads being there at once.
\<close>

fun in_critical :: "thread \<Rightarrow> server \<Rightarrow> bool" where
  "in_critical Main s \<longleftrightarrow> main_cs (mpc (acc s))"
| "in_critical (Worker k) s \<longleftrightarrow> k < length (handlers s) \<and> handler_cs (hpc (handlers s ! k))"

definition holder_inv :: "server \<Rightarrow> bool" where
  "holder_inv s \<longleftrightarrow> (\<forall>t. clientsMutex (reg s) = Some t \<longrightarrow> in_critical t s)"

text \<open>The workers that are still running: created and not yet past \<open>pthread_exit\<close>.\<close>

definition live_handlers :: "server \<Rightarrow> nat" where
  "live_handlers s = length (filter (\<lambda>h. hpc h \<noteq> HExit) (handlers s))"

section \<open>The range of the count under lost updates\<close>

text \<open>
  The increments and decrements stored so far over all threads.  Every value written
  to \<open>connectedClientsCount\<close> is a value read from it plus or minus one, so the count,
  and every value loaded and not yet stored, stays between minus the decrements and
  the increments stored, whatever is lost.
\<close>

definition incs_total :: "server \<Rightarrow> int" where
  "incs_total s = sum_list (map incs_stored (handlers s)) + main_pending (acc s)"

definition decs_total :: "server \<Rightarrow> int" where
  "decs_total s = sum_list (map decs_stored (handlers s))"

definition count_range_inv :: "server \<Rightarrow> bool" where
  "count_range_inv s \<longleftrightarrow>
     - decs_total s \<le> connectedClientsCount (reg s)
     \<and> connectedClientsCount (reg s) \<le> incs_total s
     \<and> list_all (\<lambda>h. pending_update h \<longrightarrow> - decs_total s \<le> hreg h \<and> hreg h \<le> incs_total s)
          (handlers s)
     \<and> (mpc (acc s) = MIncStore \<longrightarrow>
          - decs_total s \<le> mreg (acc s) \<and> mreg (acc s) \<le> incs_total s)"

section \<open>Lemmas\<close>

subsection \<open>Steps and runs\<close>

lemma apply_handler_effect_fields [simp]:
  "reg (apply_handler_effect e s) = reg s"
  "acc (apply_handler_effect e s) = acc s"
  "handlers (apply_handler_effect e s) = handlers s"
  by (cases e; simp)+

lemma apply_main_effect_fields [simp]:
  "reg (apply_main_effect e s) = reg s"
  "acc (apply_main_effect e s) = acc s"
  "handlers (apply_main_effect e s) = (if e = MSpawn then handlers s @ [handler_new] else handlers s)"
  by (cases e; simp)+

lemma reach_run: "reach s \<Longrightarrow> run es s = Some t \<Longrightarrow> reach t"
proof (induction es arbitrary: s)
  case Nil
  then show ?case by simp
next
  case (Cons e es)
  then obtain s' where "sys_step e s = Some s'" and "run es s' = Some t"
    by (auto split: option.splits)
  with Cons show ?case by (blast intro: reach.step)
qed

subsection \<open>The registry invariant\<close>

lemma main_step_inv:
  assumes "main_step (mpc a) i r a = Some (r', a', e)"
    and "exitFlag r = 0" and "main_in_loop (mpc a)"
  shows "exitFlag r' = 0 \<and> main_in_loop (mpc a')"
  using assms
  by (cases "mpc a"; cases i;
      auto simp: main_in_loop_def step_simps split: if_splits)

lemma sys_step_inv:
  assumes inv: "server_inv s" and st: "sys_step ev s = Some s'"
  shows "server_inv s'"
proof (cases ev)
  case (EvMain i)
  with st obtain r' a' e where
    ms: "main_step (mpc (acc s)) i (reg s) (acc s) = Some (r', a', e)" and
    s': "s' = apply_main_effect e (s\<lparr>reg := r', acc := a'\<rparr>)"
    by (auto split: option.splits)
  from inv have "exitFlag (reg s) = 0" and "main_in_loop (mpc (acc s))"
    by (simp_all add: server_inv_def)
  from main_step_inv [OF ms this] have mi: "exitFlag r' = 0 \<and> main_in_loop (mpc a')" .
  from inv mi show ?thesis
    unfolding s' by (auto simp: server_inv_def)
next
  case (EvHandler k i)
  with st obtain r' h' e where
    k: "k < length (handlers s)" and
    hs: "handler_step (hpc (handlers s ! k)) (Worker k) i (clientFd (acc s)) (reg s)
           (handlers s ! k) = Some (r', h', e)" and
    s': "s' = apply_handler_effect e (s\<lparr>reg := r', handlers := (handlers s)[k := h']\<rparr>)"
    by (auto split: if_splits option.splits)
  from inv k have "exitFlag (reg s) = 0" and "hpc (handlers s ! k) \<noteq> HUnlockBreak"
    by (auto simp: server_inv_def)
  from handler_step_exit_flag [OF hs this] have hi: "exitFlag r' = 0 \<and> hpc h' \<noteq> HUnlockBreak" .
  from inv hi show ?thesis
    unfolding s' by (auto simp: server_inv_def dest: set_update_subset_insert [THEN subsetD])
qed

lemma server_start_inv: "server_inv (server_start sfd)"
  by (simp add: server_inv_def server_start_def acceptor_init_def main_in_loop_def)

lemma reach_inv: "reach s \<Longrightarrow> server_inv s"
proof (induction rule: reach.induct)
  case (start e sfd)
  show ?case by (rule server_start_inv)
next
  case (step s ev s')
  then show ?case by (blast intro: sys_step_inv)
qed

lemma reach_by_run:
  "server_init e = Inr sfd \<Longrightarrow> run es (server_start sfd) = Some s \<Longrightarrow> reach s"
  by (blast intro: reach.start reach_run)

subsection \<open>Critical sections\<close>

lemma live_handlers_spawn:
  "live_handlers (s\<lparr>handlers := handlers s @ [handler_new]\<rparr>) = Suc (live_handlers s)"
  by (simp add: live_handlers_def)

lemma sys_step_holder_inv:
  assumes inv: "holder_inv s" and st: "sys_step ev s = Some s'"
  shows "holder_inv s'"
proof (cases ev)
  case (EvMain i)
  with st obtain r' a' e where
    ms: "main_step (mpc (acc s)) i (reg s) (acc s) = Some (r', a', e)" and
    s': "s' = apply_main_effect e (s\<lparr>reg := r', acc := a'\<rparr>)"
    by (auto split: option.splits)
  from inv have "clientsMutex (reg s) = Some Main \<Longrightarrow> main_cs (mpc (acc s))"
    by (simp add: holder_inv_def)
  from main_step_holder [OF ms this] inv show ?thesis
    unfolding s' holder_inv_def
    by (auto simp: nth_append elim!: in_critical.elims)
next
  case (EvHandler k i)
  with st obtain r' h' e where
    k: "k < length (handlers s)" and
    hs: "handler_step (hpc (handlers s ! k)) (Worker k) i (clientFd (acc s)) (reg s)
           (handlers s ! k) = Some (r', h', e)" and
    s': "s' = apply_handler_effect e (s\<lparr>reg := r', handlers := (handlers s)[k := h']\<rparr>)"
    by (auto split: if_splits option.splits)
  from inv k have "clientsMutex (reg s) = Some (Worker k) \<Longrightarrow> handler_cs (hpc (handlers s ! k))"
    by (simp add: holder_inv_def)
  from handler_step_holder [OF hs this] inv k show ?thesis
    unfolding s' holder_inv_def
    by (auto simp: nth_list_update elim!: in_critical.elims)
qed

lemma reach_holder_inv: "reach s \<Longrightarrow> holder_inv s"
proof (induction rule: reach.induct)
  case (start e sfd)
  show ?case by (simp add: holder_inv_def server_start_def)
next
  case (step s ev s')
  then show ?case by (blast intro: sys_step_holder_inv)
qed

subsection \<open>The range of the count\<close>

lemma sys_step_count_range_main:
  assumes inv: "count_range_inv s"
    and ms: "main_step (mpc (acc s)) i (reg s) (acc s) = Some (r', a', e)"
    and s': "s' = apply_main_effect e (s\<lparr>reg := r', acc := a'\<rparr>)"
  shows "count_range_inv s'"
proof -
  let ?lo = "- decs_total s" and ?hi = "incs_total s"
  from inv have "?lo \<le> connectedClientsCount (reg s)" "connectedClientsCount (reg s) \<le> ?hi"
    and "mpc (acc s) = MIncStore \<Longrightarrow> ?lo \<le> mreg (acc s) \<and> mreg (acc s) \<le> ?hi"
    by (simp_all add: count_range_inv_def)
  note mr = main_step_range [OF ms this]
  have inc: "incs_total s' =
      ?hi + (main_pending a' + (if e = MSpawn then 1 else 0) - main_pending (acc s))"
    unfolding s' incs_total_def by simp
  have dec: "decs_total s' = decs_total s"
    unfolding s' decs_total_def by simp
  from mr have "?hi \<le> incs_total s'" by (simp add: inc)
  with inv mr inc dec show ?thesis
    unfolding s' by (auto simp: count_range_inv_def list_all_iff)
qed

lemma sys_step_count_range_handler:
  assumes inv: "count_range_inv s" and k: "k < length (handlers s)"
    and hs: "handler_step (hpc (handlers s ! k)) (Worker k) i arg (reg s) (handlers s ! k)
               = Some (r', h', e)"
    and s': "s' = apply_handler_effect e (s\<lparr>reg := r', handlers := (handlers s)[k := h']\<rparr>)"
  shows "count_range_inv s'"
proof -
  let ?lo = "- decs_total s" and ?hi = "incs_total s" and ?h = "handlers s ! k"
  from inv k have "?lo \<le> connectedClientsCount (reg s)" "connectedClientsCount (reg s) \<le> ?hi"
    and "pending_update ?h \<Longrightarrow> ?lo \<le> hreg ?h \<and> hreg ?h \<le> ?hi"
    by (simp_all add: count_range_inv_def list_all_length)
  note hr = handler_step_range [OF hs this]
  have inc: "incs_total s' = ?hi + (incs_stored h' - incs_stored ?h)"
    unfolding s' incs_total_def by (simp add: sum_list_map_update [OF k])
  have dec: "decs_total s' = decs_total s + (decs_stored h' - decs_stored ?h)"
    unfolding s' decs_total_def by (simp add: sum_list_map_update [OF k])
  from hr inc dec have lo: "- decs_total s' \<le> ?lo" and hi: "?hi \<le> incs_total s'" by simp_all
  have regs: "pending_update g \<longrightarrow> - decs_total s' \<le> hreg g \<and> hreg g \<le> incs_total s'"
    if "g \<in> set ((handlers s)[k := h'])" for g
  proof -
    from that have "g = h' \<or> g \<in> set (handlers s)"
      using set_update_subset_insert by fastforce
    with inv hr lo hi show ?thesis by (auto simp: count_range_inv_def list_all_iff)
  qed
  from inv hr inc dec lo hi have "- decs_total s' \<le> connectedClientsCount r'"
    and "connectedClientsCount r' \<le> incs_total s'"
    and "mpc (acc s) = MIncStore \<longrightarrow>
           - decs_total s' \<le> mreg (acc s) \<and> mreg (acc s) \<le> incs_total s'"
    by (auto simp: count_range_inv_def)
  with regs show ?thesis
    unfolding s' count_range_inv_def list_all_iff by simp
qed

lemma sys_step_count_range:
  "count_range_inv s \<Longrightarrow> sys_step ev s = Some s' \<Longrightarrow> count_range_inv s'"
  by (cases ev) (auto split: option.splits if_splits
      intro: sys_step_count_range_main sys_step_count_range_handler)

lemma reach_count_range: "reach s \<Longrightarrow> count_range_inv s"
proof (induction rule: reach.induct)
  case (start e sfd)
  show ?case
    by (simp add: count_range_inv_def incs_total_def decs_total_def main_pending_def
        server_start_def acceptor_init_def)
next
  case (step s ev s')
  then show ?case by (blast intro: sys_step_count_range)
qed

lemma count_range_thread_bounds:
  assumes "count_range_inv s"
  shows "- int (length (handlers s)) \<le> connectedClientsCount (reg s)
         \<and> connectedClientsCount (reg s) \<le> 2 * int (length (handlers s)) + 1"
proof -
  have "sum_list (map incs_stored (handlers s)) \<le> 2 * int (length (handlers s))"
    by (rule sum_list_map_upper) (simp add: inv_simps)
  moreover have "decs_total s \<le> 1 * int (length (handlers s))"
    unfolding decs_total_def by (rule sum_list_map_upper) (simp add: inv_simps)
  moreover have "main_pending (acc s) \<le> 1" by (simp add: main_pending_def)
  ultimately show ?thesis using assms by (auto simp: count_range_inv_def incs_total_def)
qed

end
