(* ===== verification/Serialised.thy ===== *)
theory Serialised
  imports Server
begin

text \<open>
  The server under the schedules in which the extra unlock of line 42 is harmless:
  a handler executes it only while no thread holds the mutex.  These are the runs in
  which the code's locking discipline is the one its comments describe, and on them
  the mutex excludes (\<open>excl_inv\<close>: a thread is in a critical section exactly when it
  holds the mutex), no update of the count is lost (\<open>exact_inv\<close>: the count is what the
  handlers and main have added), and main's capacity test still holds when it creates
  the thread (\<open>admit_bound\<close>).  Together with the counterexamples of the root theory,
  which all use a harmful execution of line 42, this locates the races of the server
  in that one line.
\<close>

section \<open>Serialised runs\<close>

fun harmless :: "event \<Rightarrow> server \<Rightarrow> bool" where
  "harmless (EvHandler k HTick) s \<longleftrightarrow>
     \<not> (k < length (handlers s) \<and> hpc (handlers s ! k) = HUnlock0b \<and> clientsMutex (reg s) \<noteq> None)"
| "harmless (EvHandler k (HReadRes x)) s \<longleftrightarrow> True"
| "harmless (EvMain i) s \<longleftrightarrow> True"

inductive reach_ser :: "server \<Rightarrow> bool" where
  start: "server_init e = Inr sfd \<Longrightarrow> reach_ser (server_start sfd)"
| step: "reach_ser s \<Longrightarrow> harmless ev s \<Longrightarrow> sys_step ev s = Some s' \<Longrightarrow> reach_ser s'"

fun run_ser :: "event list \<Rightarrow> server \<Rightarrow> server option" where
  "run_ser [] s = Some s"
| "run_ser (e # es) s =
     (if harmless e s then (case sys_step e s of None \<Rightarrow> None | Some s' \<Rightarrow> run_ser es s')
      else None)"

definition excl_inv :: "server \<Rightarrow> bool" where
  "excl_inv s \<longleftrightarrow> (\<forall>t. in_critical t s \<longleftrightarrow> clientsMutex (reg s) = Some t)"

definition exact_inv :: "server \<Rightarrow> bool" where
  "exact_inv s \<longleftrightarrow>
     connectedClientsCount (reg s) = sum_list (map contrib (handlers s)) + main_pending (acc s)
     \<and> list_all (reg_fresh (reg s)) (handlers s)
     \<and> (mpc (acc s) = MIncStore \<longrightarrow> mreg (acc s) = connectedClientsCount (reg s))"

section \<open>Lemmas\<close>

lemma reach_ser_reach: "reach_ser s \<Longrightarrow> reach s"
  by (induction rule: reach_ser.induct) (auto intro: reach.intros)

lemma run_ser_reach: "reach_ser s \<Longrightarrow> run_ser es s = Some t \<Longrightarrow> reach_ser t"
proof (induction es arbitrary: s)
  case Nil
  then show ?case by simp
next
  case (Cons e es)
  then obtain s' where "harmless e s" and "sys_step e s = Some s'" and "run_ser es s' = Some t"
    by (auto split: if_splits option.splits)
  with Cons show ?case by (blast intro: reach_ser.step)
qed

lemma reach_ser_by_run:
  "server_init e = Inr sfd \<Longrightarrow> run_ser es (server_start sfd) = Some s \<Longrightarrow> reach_ser s"
  by (blast intro: reach_ser.start run_ser_reach)

subsection \<open>Mutual exclusion\<close>

lemma excl_invD: "excl_inv s \<Longrightarrow> in_critical t s \<longleftrightarrow> clientsMutex (reg s) = Some t"
  by (simp add: excl_inv_def)

lemma in_critical_worker_main_step:
  "in_critical (Worker k) (apply_main_effect e (s\<lparr>reg := r', acc := a'\<rparr>)) = in_critical (Worker k) s"
  by (auto simp: nth_append handler_cs_def)

lemma excl_inv_main:
  assumes inv: "excl_inv s"
    and ms: "main_step (mpc (acc s)) i (reg s) (acc s) = Some (r', a', e)"
    and s': "s' = apply_main_effect e (s\<lparr>reg := r', acc := a'\<rparr>)"
  shows "excl_inv s'"
proof -
  from excl_invD [OF inv, of Main]
  have "main_cs (mpc (acc s)) \<longleftrightarrow> clientsMutex (reg s) = Some Main" by simp
  note mm = main_step_mutex [OF ms this]
  have "in_critical t s' \<longleftrightarrow> clientsMutex r' = Some t" for t
  proof (cases t)
    case Main
    with mm s' show ?thesis by simp
  next
    case (Worker k)
    with mm Worker s' excl_invD [OF inv, of t] show ?thesis
      by (auto simp only: in_critical_worker_main_step thread.distinct)
  qed
  with s' show ?thesis by (simp add: excl_inv_def)
qed

lemma excl_inv_handler:
  assumes inv: "excl_inv s" and k: "k < length (handlers s)"
    and harm: "harmless (EvHandler k i) s"
    and hs: "handler_step (hpc (handlers s ! k)) (Worker k) i arg (reg s) (handlers s ! k)
               = Some (r', h', e)"
    and s': "s' = apply_handler_effect e (s\<lparr>reg := r', handlers := (handlers s)[k := h']\<rparr>)"
  shows "excl_inv s'"
proof -
  let ?h = "handlers s ! k"
  from excl_invD [OF inv, of "Worker k"] k
  have cs: "handler_cs (hpc ?h) \<longleftrightarrow> clientsMutex (reg s) = Some (Worker k)" by simp
  have free: "clientsMutex (reg s) = None" if "hpc ?h = HUnlock0b"
  proof (cases i rule: handler_input_cases)
    case Tick
    with harm k that show ?thesis by simp
  qed (use hs that in simp_all)
  note hm = handler_step_mutex [OF hs cs free]
  have "in_critical t s' \<longleftrightarrow> clientsMutex r' = Some t" for t
  proof (cases "t = Worker k")
    case True
    with hm k s' show ?thesis by simp
  next
    case False
    with k s' have "in_critical t s' \<longleftrightarrow> in_critical t s"
      by (cases t) (auto simp: nth_list_update)
    with hm False excl_invD [OF inv, of t] show ?thesis by auto
  qed
  with s' show ?thesis by (simp add: excl_inv_def)
qed

lemma sys_step_excl:
  assumes "excl_inv s" and "harmless ev s" and "sys_step ev s = Some s'"
  shows "excl_inv s'"
  using assms
  by (cases ev) (auto split: option.splits if_splits intro: excl_inv_main excl_inv_handler)

lemma reach_ser_excl: "reach_ser s \<Longrightarrow> excl_inv s"
proof (induction rule: reach_ser.induct)
  case (start e sfd)
  show ?case
    by (auto simp: excl_inv_def server_start_def acceptor_init_def main_cs_def
        elim: in_critical.elims)
next
  case (step s ev s')
  then show ?case by (blast intro: sys_step_excl)
qed

text \<open>Under mutual exclusion, two threads cannot both be about to write the count.\<close>

lemma excl_pending_unique:
  assumes "excl_inv s" and "k < length (handlers s)" and "pending_update (handlers s ! k)"
  shows "clientsMutex (reg s) = Some (Worker k)"
  using assms pending_update_cs by (auto simp: excl_inv_def)

text \<open>While main is between its capacity test and \<open>pthread_create\<close>, it holds the mutex.\<close>

lemma excl_main_admitting:
  assumes "excl_inv s" and "mpc (acc s) \<in> {MIncLoad, MIncStore, MCreate}"
  shows "clientsMutex (reg s) = Some Main"
  using excl_invD [OF assms(1), of Main] assms(2) by (auto simp: main_cs_def)

text \<open>
  Hence a handler that writes the count holds the mutex, and no other thread has a
  pending value or is admitting.
\<close>

lemma excl_handler_writes:
  assumes "excl_inv s" and "k < length (handlers s)"
    and "handler_step (hpc (handlers s ! k)) (Worker k) i arg (reg s) (handlers s ! k)
           = Some (r', h', e)"
    and "connectedClientsCount r' \<noteq> connectedClientsCount (reg s)"
  shows "mpc (acc s) \<notin> {MIncLoad, MIncStore, MCreate}"
    and "j < length (handlers s) \<Longrightarrow> j \<noteq> k \<Longrightarrow> \<not> pending_update (handlers s ! j)"
proof -
  have "clientsMutex (reg s) = Some (Worker k)"
    by (rule excl_pending_unique [OF assms(1,2) handler_step_writes [OF assms(3,4)]])
  then show "mpc (acc s) \<notin> {MIncLoad, MIncStore, MCreate}"
    using excl_main_admitting [OF assms(1)] by auto
  show "\<not> pending_update (handlers s ! j)" if "j < length (handlers s)" and "j \<noteq> k"
    using excl_pending_unique [OF assms(1) that(1)] \<open>clientsMutex (reg s) = Some (Worker k)\<close> that(2)
    by auto
qed

subsection \<open>No lost updates\<close>

lemma exact_inv_main:
  assumes exc: "excl_inv s" and inv: "exact_inv s"
    and ms: "main_step (mpc (acc s)) i (reg s) (acc s) = Some (r', a', e)"
    and s': "s' = apply_main_effect e (s\<lparr>reg := r', acc := a'\<rparr>)"
  shows "exact_inv s'"
proof -
  from inv have "mpc (acc s) = MIncStore \<Longrightarrow> mreg (acc s) = connectedClientsCount (reg s)"
    by (simp add: exact_inv_def)
  note me = main_step_exact [OF ms this]
  have sum: "sum_list (map contrib (handlers s')) =
               sum_list (map contrib (handlers s)) + (if e = MSpawn then 1 else 0)"
    unfolding s' by simp
  have fresh: "list_all (reg_fresh r') (handlers s')"
  proof (cases "connectedClientsCount r' = connectedClientsCount (reg s)")
    case True
    with inv show ?thesis
      unfolding s' by (simp add: exact_inv_def reg_fresh_def list_all_iff)
  next
    case False
    with me have "mpc (acc s) = MIncStore" by simp
    with excl_main_admitting [OF exc] have "clientsMutex (reg s) = Some Main" by simp
    with excl_pending_unique [OF exc] have "\<forall>h\<in>set (handlers s). \<not> pending_update h"
      by (auto simp: in_set_conv_nth)
    then show ?thesis
      unfolding s' by (auto simp: reg_fresh_def pending_update_def list_all_iff)
  qed
  from inv me sum fresh show ?thesis
    unfolding s' by (simp add: exact_inv_def)
qed

lemma exact_inv_handler:
  assumes exc: "excl_inv s" and inv: "exact_inv s" and sinv: "server_inv s"
    and k: "k < length (handlers s)"
    and hs: "handler_step (hpc (handlers s ! k)) (Worker k) i arg (reg s) (handlers s ! k)
               = Some (r', h', e)"
    and s': "s' = apply_handler_effect e (s\<lparr>reg := r', handlers := (handlers s)[k := h']\<rparr>)"
  shows "exact_inv s'"
proof -
  let ?h = "handlers s ! k"
  from sinv k have "exitFlag (reg s) = 0" and "hpc ?h \<noteq> HUnlockBreak"
    by (auto simp: server_inv_def)
  moreover from inv k have "reg_fresh (reg s) ?h"
    by (simp add: exact_inv_def list_all_length)
  ultimately have hi:
    "connectedClientsCount r' - contrib h' = connectedClientsCount (reg s) - contrib ?h
     \<and> reg_fresh r' h'"
    using handler_step_inv [OF hs] by blast
  have sum: "sum_list (map contrib ((handlers s)[k := h'])) =
               sum_list (map contrib (handlers s)) - contrib ?h + contrib h'"
    by (rule sum_list_map_update [OF k])
  have others: "reg_fresh r' (handlers s ! j)" if "j < length (handlers s)" "j \<noteq> k" for j
  proof (cases "connectedClientsCount r' = connectedClientsCount (reg s)")
    case True
    with inv that(1) show ?thesis
      by (simp add: exact_inv_def list_all_length reg_fresh_def)
  next
    case False
    from excl_handler_writes(2) [OF exc k hs False that] show ?thesis
      by (simp add: reg_fresh_def pending_update_def)
  qed
  have fresh: "list_all (reg_fresh r') ((handlers s)[k := h'])"
  proof (unfold list_all_length, intro allI impI)
    fix n assume "n < length ((handlers s)[k := h'])"
    then show "reg_fresh r' ((handlers s)[k := h'] ! n)"
      using hi others by (cases "n = k") simp_all
  qed
  have main: "mpc (acc s) = MIncStore \<longrightarrow> mreg (acc s) = connectedClientsCount r'"
  proof (cases "connectedClientsCount r' = connectedClientsCount (reg s)")
    case True
    with inv show ?thesis by (simp add: exact_inv_def)
  next
    case False
    from excl_handler_writes(1) [OF exc k hs False] show ?thesis by simp
  qed
  from inv hi sum fresh main show ?thesis
    unfolding s' by (simp add: exact_inv_def)
qed

lemma admit_bound_handler:
  assumes exc: "excl_inv s" and ab: "admit_bound (reg s) (acc s)"
    and k: "k < length (handlers s)"
    and hs: "handler_step (hpc (handlers s ! k)) (Worker k) i arg (reg s) (handlers s ! k)
               = Some (r', h', e)"
  shows "admit_bound r' (acc s)"
proof (cases "connectedClientsCount r' = connectedClientsCount (reg s)")
  case True
  with ab show ?thesis by (simp add: admit_bound_def)
next
  case False
  from excl_handler_writes(1) [OF exc k hs False] show ?thesis
    by (simp add: admit_bound_def)
qed

lemma sys_step_ser:
  assumes exc: "excl_inv s" and inv: "exact_inv s \<and> admit_bound (reg s) (acc s)"
    and sinv: "server_inv s" and st: "sys_step ev s = Some s'"
  shows "exact_inv s' \<and> admit_bound (reg s') (acc s')"
proof (cases ev)
  case (EvMain i)
  with st obtain r' a' e where
    ms: "main_step (mpc (acc s)) i (reg s) (acc s) = Some (r', a', e)" and
    s': "s' = apply_main_effect e (s\<lparr>reg := r', acc := a'\<rparr>)"
    by (auto split: option.splits)
  from exact_inv_main [OF exc _ ms s'] main_step_admit_bound [OF ms] inv s'
  show ?thesis by simp
next
  case (EvHandler k i)
  with st obtain r' h' e where
    k: "k < length (handlers s)" and
    hs: "handler_step (hpc (handlers s ! k)) (Worker k) i (clientFd (acc s)) (reg s)
           (handlers s ! k) = Some (r', h', e)" and
    s': "s' = apply_handler_effect e (s\<lparr>reg := r', handlers := (handlers s)[k := h']\<rparr>)"
    by (auto split: if_splits option.splits)
  from exact_inv_handler [OF exc _ sinv k hs s'] admit_bound_handler [OF exc _ k hs] inv s'
  show ?thesis by simp
qed

lemma reach_ser_exact: "reach_ser s \<Longrightarrow> exact_inv s \<and> admit_bound (reg s) (acc s)"
proof (induction rule: reach_ser.induct)
  case (start e sfd)
  show ?case
    by (simp add: exact_inv_def admit_bound_def main_pending_def server_start_def
        acceptor_init_def)
next
  case (step s ev s')
  from step.hyps(1) have "excl_inv s" and "server_inv s"
    by (simp_all add: reach_ser_excl reach_inv reach_ser_reach)
  from sys_step_ser [OF this(1) step.IH this(2) step.hyps(3)] show ?case .
qed

subsection \<open>Admission against the registry contract\<close>

lemma exact_live_le_count:
  assumes "exact_inv s"
  shows "int (live_handlers s) + main_pending (acc s) \<le> connectedClientsCount (reg s)"
proof -
  have "live_handlers s \<le> length (handlers s)"
    by (simp add: live_handlers_def)
  moreover have "1 * int (length (handlers s)) \<le> sum_list (map contrib (handlers s))"
    by (rule sum_list_map_lower) (simp add: inv_simps)
  ultimately show ?thesis using assms by (simp add: exact_inv_def)
qed

end
