(* ===== verification/Shutdown.thy ===== *)
theory Shutdown
  imports Server
begin

text \<open>
  The spec's Shutdown Coordinator (section 4.5): \<open>requestShutdown()\<close> sets the shared
  flag under the lock.  The code has no caller of it (nothing but line 119 writes
  \<open>exitFlag\<close>, and only after the loop), so the operation is modelled from the spec,
  as an external event that, when the mutex is free, takes it, sets \<open>exitFlag\<close> and
  releases it.  \<open>ext_step\<close> is the server's step extended by that event, \<open>reach_ext\<close>
  and \<open>run_ext\<close> its reachable states and runs.  The lemmas show what the code does
  once the flag is set: the acceptance loop may still create one thread, then leaves
  the loop at line 111 and runs lines 118--124.
\<close>

section \<open>The extended system\<close>

definition request_shutdown :: "registry \<Rightarrow> registry option" where
  "request_shutdown r =
     (if clientsMutex r = None then Some (r\<lparr>exitFlag := 1\<rparr>) else None)"

datatype ext_event = Ev event | EvRequestShutdown

fun ext_step :: "ext_event \<Rightarrow> server \<Rightarrow> server option" where
  "ext_step (Ev ev) s = sys_step ev s"
| "ext_step EvRequestShutdown s =
     (if mpc (acc s) \<noteq> MReturn
      then map_option (\<lambda>r. s\<lparr>reg := r\<rparr>) (request_shutdown (reg s)) else None)"

inductive reach_ext :: "server \<Rightarrow> bool" where
  start: "server_init e = Inr sfd \<Longrightarrow> reach_ext (server_start sfd)"
| step: "reach_ext s \<Longrightarrow> ext_step ev s = Some s' \<Longrightarrow> reach_ext s'"

fun run_ext :: "ext_event list \<Rightarrow> server \<Rightarrow> server option" where
  "run_ext [] s = Some s"
| "run_ext (e # es) s = (case ext_step e s of None \<Rightarrow> None | Some s' \<Rightarrow> run_ext es s')"

section \<open>Lemmas\<close>

lemma run_ext_reach: "reach_ext s \<Longrightarrow> run_ext es s = Some t \<Longrightarrow> reach_ext t"
proof (induction es arbitrary: s)
  case Nil
  then show ?case by simp
next
  case (Cons e es)
  then obtain s' where "ext_step e s = Some s'" and "run_ext es s' = Some t"
    by (auto split: option.splits)
  with Cons show ?case by (blast intro: reach_ext.step)
qed

lemma reach_ext_by_run:
  "server_init e = Inr sfd \<Longrightarrow> run_ext es (server_start sfd) = Some s \<Longrightarrow> reach_ext s"
  by (blast intro: reach_ext.start run_ext_reach)

text \<open>Once the flag is set it stays set, and created threads plus admissions left never grow.\<close>

lemma ext_step_after_shutdown:
  assumes "ext_step ev s = Some s'" and "exitFlag (reg s) \<noteq> 0"
  shows "exitFlag (reg s') \<noteq> 0
         \<and> length (handlers s') + admissions_left (mpc (acc s'))
             \<le> length (handlers s) + admissions_left (mpc (acc s))"
proof (cases ev)
  case (Ev e)
  show ?thesis
  proof (cases e)
    case (EvMain i)
    with Ev assms(1) obtain r' a' eff where
      ms: "main_step (mpc (acc s)) i (reg s) (acc s) = Some (r', a', eff)" and
      s': "s' = apply_main_effect eff (s\<lparr>reg := r', acc := a'\<rparr>)"
      by (auto split: option.splits)
    from main_step_after_shutdown [OF ms assms(2)] s' show ?thesis
      by (auto split: if_splits)
  next
    case (EvHandler k i)
    with Ev assms(1) obtain r' h' eff where
      hs: "handler_step (hpc (handlers s ! k)) (Worker k) i (clientFd (acc s)) (reg s)
             (handlers s ! k) = Some (r', h', eff)" and
      s': "s' = apply_handler_effect eff (s\<lparr>reg := r', handlers := (handlers s)[k := h']\<rparr>)"
      by (auto split: if_splits option.splits)
    from handler_step_keeps_exit_flag [OF hs] assms(2) s' show ?thesis by simp
  qed
next
  case EvRequestShutdown
  with assms show ?thesis
    by (auto simp: request_shutdown_def split: if_splits)
qed

lemma run_ext_after_shutdown:
  assumes "run_ext es s = Some s'" and "exitFlag (reg s) \<noteq> 0"
  shows "length (handlers s') + admissions_left (mpc (acc s'))
           \<le> length (handlers s) + admissions_left (mpc (acc s))"
  using assms
proof (induction es arbitrary: s)
  case Nil
  then show ?case by simp
next
  case (Cons e es)
  then obtain s1 where st: "ext_step e s = Some s1" and rest: "run_ext es s1 = Some s'"
    by (auto split: option.splits)
  from ext_step_after_shutdown [OF st Cons.prems(2)] Cons.IH [OF rest] show ?case
    by simp
qed

lemma admissions_left_le_one: "admissions_left l \<le> 1"
  by (simp add: admissions_left_def)

end
