(* ===== verification/Pipe.thy ===== *)
theory Pipe
  imports ClientHandler
begin

text \<open>
  The named pipe \<open>/tmp/ServerPipe\<close> as the kernel keeps it (fifo(7), pipe(7)): the
  bytes written and not yet read, and the number of write ends open.  Every read end
  the server process holds (\<open>serverFd\<close> and each \<open>clientFd\<close> that \<open>open\<close> returns)
  refers to this one pipe, and every client writes into it.
  \<^item> \<open>open(path, O_RDONLY)\<close> returns at once while a write end is open and blocks
    otherwise (\<open>pipe_open_read\<close>); \<open>open(path, O_WRONLY)\<close> adds a write end (the
    server always holds \<open>serverFd\<close>, so a reader exists and the call does not block).
  \<^item> A \<open>write\<close> of at most \<open>PIPE_BUF\<close> bytes is atomic: its bytes are appended together.
  \<^item> \<open>read(fd, buf, n)\<close> returns a non-empty prefix of the pending bytes of at most
    \<open>n\<close> bytes (Linux returns all it can, POSIX allows fewer; the model allows any), or
    0 when nothing is pending and no write end is open, and blocks otherwise.
\<close>

record pipe =
  pbuf :: cstring
  pwriters :: nat

definition PIPE_BUF :: nat where
  "PIPE_BUF = 4096"

definition pipe_open_read :: "pipe \<Rightarrow> bool" where
  "pipe_open_read p \<longleftrightarrow> 0 < pwriters p"

definition pipe_open_write :: "pipe \<Rightarrow> pipe" where
  "pipe_open_write p = p\<lparr>pwriters := Suc (pwriters p)\<rparr>"

definition pipe_close_write :: "pipe \<Rightarrow> pipe" where
  "pipe_close_write p = p\<lparr>pwriters := pwriters p - 1\<rparr>"

definition pipe_write :: "pipe \<Rightarrow> cstring \<Rightarrow> pipe" where
  "pipe_write p bs = p\<lparr>pbuf := pbuf p @ bs\<rparr>"

fun pipe_read :: "pipe \<Rightarrow> nat \<Rightarrow> read_result \<Rightarrow> pipe option" where
  "pipe_read p n (RBytes bs) =
     (if bs \<noteq> [] \<and> length bs \<le> n \<and> bs = take (length bs) (pbuf p)
      then Some (p\<lparr>pbuf := drop (length bs) (pbuf p)\<rparr>) else None)"
| "pipe_read p n REof = (if pbuf p = [] \<and> pwriters p = 0 then Some p else None)"
| "pipe_read p n RErr = None"

declare pipe_open_read_def [step_simps] pipe_open_write_def [step_simps]
  pipe_close_write_def [step_simps] pipe_write_def [step_simps]

end
