(* ===== verification/Client.thy ===== *)
theory Client
  imports Chat_Prelude
begin

text \<open>
  The client program, \<open>main\<close> of \<open>src/client.c\<close> (lines 17--102).  It is single
  threaded and deterministic once its inputs are fixed, so it is a function of its
  environment: the results of the successive \<open>open\<close> calls of the reconnect loop, the
  bytes on stdin, and the results of the writes.  The C library calls it makes are
  modelled on their arrays: \<open>fgets\<close> (at most \<open>size - 1\<close> bytes, up to and including a
  newline, \<open>NULL\<close> at end of input), \<open>strlen\<close>, \<open>strncmp\<close> (byte comparison up to a
  NUL or the length bound), \<open>snprintf\<close> (the formatted text cut to \<open>size - 1\<close>
  bytes) and \<open>write(fd, fullMessage, strlen(fullMessage) + 1)\<close> (the C string and its
  NUL, one frame).  The loops carry fuel; the theorems say how much is enough.

  When \<open>fgets\<close> returns \<open>NULL\<close> the code does not check it and goes on with a buffer
  whose content is indeterminate (\<open>password\<close> and \<open>message\<close> are fresh objects in
  each iteration, \<open>username\<close> has never been written); the model stops there with the
  outcome \<open>StdinExhausted\<close> rather than inventing that content.
\<close>

section \<open>C library calls on arrays\<close>

abbreviation NL :: char where
  "NL \<equiv> CHR 0x0A"

definition line_len :: "cstring \<Rightarrow> nat" where
  "line_len inp = length (takeWhile (\<lambda>c. c \<noteq> NL) inp) + (if NL \<in> set inp then 1 else 0)"

text \<open>\<open>fgets(buf, size, stdin)\<close>: the bytes stored in \<open>buf\<close> and what stays on stdin.\<close>

definition fgets :: "nat \<Rightarrow> cstring \<Rightarrow> (cstring \<times> cstring) option" where
  "fgets bufsz inp =
     (if inp = [] then None
      else let k = min (bufsz - 1) (line_len inp) in Some (take k inp, drop k inp))"

definition strlen :: "cstring \<Rightarrow> nat" where
  "strlen s = length (cstr s)"

text \<open>
  \<open>strncmp(s, t, n)\<close> on two C strings (the terminating NUL is implicit at the end of
  each list): the difference of the first differing bytes, as unsigned chars, within
  the first \<open>n\<close>, stopping at a common NUL.
\<close>

fun strncmp :: "cstring \<Rightarrow> cstring \<Rightarrow> nat \<Rightarrow> int" where
  "strncmp s t 0 = 0"
| "strncmp s t (Suc n) =
     (let a = (case s of [] \<Rightarrow> NUL | c # _ \<Rightarrow> c);
          b = (case t of [] \<Rightarrow> NUL | c # _ \<Rightarrow> c)
      in if a \<noteq> b then int (of_char a) - int (of_char b)
         else if a = NUL then 0
         else strncmp (tl s) (tl t) n)"

text \<open>\<open>snprintf(buf, size, ...)\<close>: the formatted text, cut to \<open>size - 1\<close> bytes.\<close>

definition snprintf :: "nat \<Rightarrow> cstring \<Rightarrow> cstring" where
  "snprintf bufsz txt = take (bufsz - 1) txt"

section \<open>The client's state and steps\<close>

definition AUTH_PASSWORD :: cstring where
  "AUTH_PASSWORD = ''password''"

definition FULLMESSAGE_SIZE :: nat where
  "FULLMESSAGE_SIZE = 512"

definition USERNAME_SIZE :: nat where
  "USERNAME_SIZE = 50"

definition MESSAGE_SIZE :: nat where
  "MESSAGE_SIZE = 256"

record client =
  c_serverFd :: fd
  c_username :: cstring      \<comment> \<open>the C string in \<open>char username[50]\<close>\<close>
  usernameJoined :: bool
  c_stdin :: cstring         \<comment> \<open>the bytes not yet read from stdin\<close>
  c_frames :: "cstring list" \<comment> \<open>the frames written to the server pipe, in order\<close>
  c_write_ok :: "bool list"  \<comment> \<open>the results of the next writes; success once exhausted\<close>

datatype client_outcome =
    Exited int        \<comment> \<open>\<open>exit(EXIT_SUCCESS)\<close> or \<open>exit(EXIT_FAILURE)\<close>\<close>
  | StdinExhausted    \<comment> \<open>\<open>fgets\<close> returned \<open>NULL\<close>, the buffer read next is indeterminate\<close>
  | Retrying          \<comment> \<open>still in the reconnect loop of line 25\<close>
  | Reconnect         \<comment> \<open>the \<open>break\<close> of line 69 back to the outer loop\<close>
  | OutOfFuel

text \<open>Lines 48--51: drop a trailing newline from the username.\<close>

definition strip_newline :: "cstring \<Rightarrow> cstring" where
  "strip_newline u = (if strlen u > 0 \<and> last (cstr u) = NL then butlast (cstr u) else cstr u)"

text \<open>Line 35: the password is accepted when \<open>strncmp\<close> returns 0.\<close>

definition password_ok :: "cstring \<Rightarrow> bool" where
  "password_ok pw \<longleftrightarrow> strncmp (cstr pw) AUTH_PASSWORD (length AUTH_PASSWORD) = 0"

text \<open>Line 73: \<open>strncmp(message, "exit", sizeof("exit") - 1) == 0\<close>.\<close>

definition is_exit_command :: "cstring \<Rightarrow> bool" where
  "is_exit_command m \<longleftrightarrow> strncmp (cstr m) ''exit'' 4 = 0"

text \<open>
  \<open>write(serverFd, fullMessage, strlen(fullMessage) + 1)\<close>: the frame is the C string
  and its NUL; \<open>None\<close> is the \<open>-1\<close> result that sends the client to \<open>exit(EXIT_FAILURE)\<close>.
\<close>

definition client_write :: "cstring \<Rightarrow> client \<Rightarrow> client option" where
  "client_write fm c =
     (case c_write_ok c of
        False # rest \<Rightarrow> None
      | True # rest \<Rightarrow> Some (c\<lparr>c_frames := c_frames c @ [cstr fm @ [NUL]], c_write_ok := rest\<rparr>)
      | [] \<Rightarrow> Some (c\<lparr>c_frames := c_frames c @ [cstr fm @ [NUL]]\<rparr>))"

text \<open>
  One iteration of the inner \<open>while (1)\<close> of lines 41--96: either the loop is left
  (\<open>Inl\<close>, with how and the state at that point) or it goes round again (\<open>Inr\<close>).
\<close>

definition chat_iter :: "client \<Rightarrow> (client_outcome \<times> client) + client" where
  "chat_iter c =
     (if \<not> usernameJoined c then
        (case fgets USERNAME_SIZE (c_stdin c) of
           None \<Rightarrow> Inl (StdinExhausted, c)
         | Some (line, rest) \<Rightarrow>
             (let u = strip_newline line;
                  c1 = c\<lparr>c_stdin := rest, c_username := u\<rparr>
              in case client_write (snprintf FULLMESSAGE_SIZE (u @ '' joined'')) c1 of
                   None \<Rightarrow> Inl (Exited 1, c1)
                 | Some c2 \<Rightarrow> Inr (c2\<lparr>usernameJoined := True\<rparr>)))
      else
        (case fgets MESSAGE_SIZE (c_stdin c) of
           None \<Rightarrow> Inl (StdinExhausted, c)
         | Some (line, rest) \<Rightarrow>
             (let c1 = c\<lparr>c_stdin := rest\<rparr>
              in if c_serverFd c = -1 then Inl (Reconnect, c1)
                 else if is_exit_command line then
                   (case client_write (snprintf FULLMESSAGE_SIZE (c_username c @ '' exited'')) c1 of
                      None \<Rightarrow> Inl (Exited 1, c1)
                    | Some c2 \<Rightarrow> Inl (Exited 0, c2))
                 else
                   (case client_write
                           (snprintf FULLMESSAGE_SIZE (c_username c @ '': '' @ cstr line)) c1 of
                      None \<Rightarrow> Inl (Exited 1, c1)
                    | Some c2 \<Rightarrow> Inr c2))))"

text \<open>The inner loop itself, one iteration per unit of fuel.\<close>

fun chat_loop :: "nat \<Rightarrow> client \<Rightarrow> client_outcome \<times> client" where
  "chat_loop 0 c = (OutOfFuel, c)"
| "chat_loop (Suc n) c = (case chat_iter c of Inl res \<Rightarrow> res | Inr c' \<Rightarrow> chat_loop n c')"

text \<open>Line 25: retry \<open>open\<close> while it returns -1.\<close>

fun open_retry :: "fd list \<Rightarrow> (fd \<times> fd list) option" where
  "open_retry [] = None"
| "open_retry (r # rs) = (if r = -1 then open_retry rs else Some (r, rs))"

text \<open>The outer \<open>while (1)\<close> of lines 23--99: connect, authenticate, chat.\<close>

fun client_main :: "nat \<Rightarrow> fd list \<Rightarrow> client \<Rightarrow> client_outcome \<times> client" where
  "client_main 0 opens c = (OutOfFuel, c)"
| "client_main (Suc n) opens c =
     (case open_retry opens of
        None \<Rightarrow> (Retrying, c)
      | Some (fd, opens') \<Rightarrow>
          (case fgets USERNAME_SIZE (c_stdin c) of
             None \<Rightarrow> (StdinExhausted, c\<lparr>c_serverFd := fd\<rparr>)
           | Some (pw, rest) \<Rightarrow>
               (let c1 = c\<lparr>c_serverFd := fd, c_stdin := rest\<rparr>
                in if \<not> password_ok pw then (Exited 1, c1)
                   else (case chat_loop n c1 of
                           (Reconnect, c2) \<Rightarrow> client_main n opens' c2
                         | res \<Rightarrow> res))))"

definition client_init :: "cstring \<Rightarrow> bool list \<Rightarrow> client" where
  "client_init inp ws =
     \<lparr>c_serverFd = -1, c_username = [], usernameJoined = False, c_stdin = inp,
      c_frames = [], c_write_ok = ws\<rparr>"

text \<open>
  The client's well-formedness: the username fits its 50-byte array with its NUL, and
  every frame written so far is at most 307 bytes (49 of username, \<open>": "\<close>, 255 of
  message and the NUL), well within the 512 bytes of \<open>fullMessage\<close>.
\<close>

definition client_wf :: "client \<Rightarrow> bool" where
  "client_wf c \<longleftrightarrow> length (c_username c) \<le> 49 \<and> NUL \<notin> set (c_username c)
     \<and> list_all (\<lambda>f. length f \<le> 307) (c_frames c)"

section \<open>Lemmas\<close>

lemma strncmp_zero_iff:
  assumes "NUL \<notin> set s" and "NUL \<notin> set t"
  shows "strncmp s t n = 0 \<longleftrightarrow> take n (s @ [NUL]) = take n (t @ [NUL])"
  using assms
proof (induction n arbitrary: s t)
  case 0
  then show ?case by simp
next
  case (Suc n)
  show ?case
  proof (cases s)
    case Nil
    then show ?thesis using Suc.prems by (cases t) (auto simp: of_char_zero_iff)
  next
    case (Cons a s')
    then show ?thesis using Suc by (cases t) (auto simp: of_char_zero_iff)
  qed
qed

text \<open>Comparing against a literal of length \<open>n\<close> is a test of the first \<open>n\<close> bytes.\<close>

lemma strncmp_literal:
  assumes "NUL \<notin> set w"
  shows "strncmp (cstr s) w (length w) = 0 \<longleftrightarrow> take (length w) (cstr s) = w"
proof -
  have "strncmp (cstr s) w (length w) = 0 \<longleftrightarrow>
          take (length w) (cstr s @ [NUL]) = take (length w) (w @ [NUL])"
    by (rule strncmp_zero_iff) (simp_all add: assms)
  also have "\<dots> \<longleftrightarrow> take (length w) (cstr s @ [NUL]) = w"
    by simp
  also have "\<dots> \<longleftrightarrow> take (length w) (cstr s) = w"
    by (rule take_nul_eq_nul_free) (simp_all add: assms)
  finally show ?thesis .
qed

lemma password_ok_prefix: "password_ok pw \<longleftrightarrow> take 8 (cstr pw) = ''password''"
proof -
  have len: "length AUTH_PASSWORD = 8" by (simp add: AUTH_PASSWORD_def)
  have "password_ok pw \<longleftrightarrow> strncmp (cstr pw) AUTH_PASSWORD (length AUTH_PASSWORD) = 0"
    by (simp only: password_ok_def)
  also have "\<dots> \<longleftrightarrow> take (length AUTH_PASSWORD) (cstr pw) = AUTH_PASSWORD"
    by (rule strncmp_literal) (simp add: AUTH_PASSWORD_def)
  also have "\<dots> \<longleftrightarrow> take 8 (cstr pw) = AUTH_PASSWORD"
    by (simp only: len)
  finally show ?thesis by (simp only: AUTH_PASSWORD_def)
qed

lemma line_len_pos: "inp \<noteq> [] \<Longrightarrow> 0 < line_len inp"
  by (cases inp) (auto simp: line_len_def)

lemma fgets_Some:
  assumes "fgets b inp = Some (line, rest)"
  shows "inp = line @ rest \<and> length line \<le> b - 1 \<and> (2 \<le> b \<longrightarrow> line \<noteq> [])"
  using assms line_len_pos [of inp]
  by (auto simp: fgets_def Let_def split: if_splits)

lemma client_write_Some:
  assumes "client_write fm c = Some c'"
  shows "c_frames c' = c_frames c @ [cstr fm @ [NUL]] \<and> c_username c' = c_username c
         \<and> c_stdin c' = c_stdin c \<and> usernameJoined c' = usernameJoined c
         \<and> c_serverFd c' = c_serverFd c"
  using assms by (auto simp: client_write_def split: list.splits bool.splits)

lemma length_frame: "length (cstr (snprintf b x) @ [NUL]) \<le> length x + 1"
  using length_cstr_le [of "snprintf b x"] by (simp add: snprintf_def)

lemma strip_newline_bounds: "length (strip_newline l) \<le> length l \<and> NUL \<notin> set (strip_newline l)"
  using length_cstr_le [of l]
  by (auto simp: strip_newline_def dest: in_set_butlastD)

text \<open>The shapes one iteration can take, as a case rule.\<close>

lemma chat_iter_cases:
  assumes "chat_iter c = x"
  obtains (eof) "x = Inl (StdinExhausted, c)"
  | (join) line rest c2 where "\<not> usernameJoined c" "fgets USERNAME_SIZE (c_stdin c) = Some (line, rest)"
      "client_write (snprintf FULLMESSAGE_SIZE (strip_newline line @ '' joined''))
         (c\<lparr>c_stdin := rest, c_username := strip_newline line\<rparr>) = Some c2"
      "x = Inr (c2\<lparr>usernameJoined := True\<rparr>)"
  | (joinfail) line rest where "\<not> usernameJoined c" "fgets USERNAME_SIZE (c_stdin c) = Some (line, rest)"
      "x = Inl (Exited 1, c\<lparr>c_stdin := rest, c_username := strip_newline line\<rparr>)"
  | (reconnect) line rest where "usernameJoined c" "fgets MESSAGE_SIZE (c_stdin c) = Some (line, rest)"
      "c_serverFd c = -1" "x = Inl (Reconnect, c\<lparr>c_stdin := rest\<rparr>)"
  | (quit) line rest c2 where "usernameJoined c" "fgets MESSAGE_SIZE (c_stdin c) = Some (line, rest)"
      "c_serverFd c \<noteq> -1" "is_exit_command line"
      "client_write (snprintf FULLMESSAGE_SIZE (c_username c @ '' exited'')) (c\<lparr>c_stdin := rest\<rparr>) = Some c2"
      "x = Inl (Exited 0, c2)"
  | (msg) line rest c2 where "usernameJoined c" "fgets MESSAGE_SIZE (c_stdin c) = Some (line, rest)"
      "c_serverFd c \<noteq> -1" "\<not> is_exit_command line"
      "client_write (snprintf FULLMESSAGE_SIZE (c_username c @ '': '' @ cstr line)) (c\<lparr>c_stdin := rest\<rparr>) = Some c2"
      "x = Inr c2"
  | (writefail) line rest where "usernameJoined c" "fgets MESSAGE_SIZE (c_stdin c) = Some (line, rest)"
      "x = Inl (Exited 1, c\<lparr>c_stdin := rest\<rparr>)"
  using assms
  by (auto simp: chat_iter_def Let_def split: if_splits option.splits)

lemma chat_iter_wf:
  assumes "chat_iter c = x" and "client_wf c"
  shows "client_wf (case x of Inl (r, c') \<Rightarrow> c' | Inr c' \<Rightarrow> c')"
  using assms(1)
proof (cases rule: chat_iter_cases)
  case eof
  with assms(2) show ?thesis by simp
next
  case (join line rest c2)
  from fgets_Some [OF join(2)] have "length line \<le> 49" by (simp add: USERNAME_SIZE_def)
  with strip_newline_bounds [of line] have u: "length (strip_newline line) \<le> 49"
    and "NUL \<notin> set (strip_newline line)" by auto
  moreover have "length (cstr (snprintf FULLMESSAGE_SIZE (strip_newline line @ '' joined'')) @ [NUL])
                   \<le> 307"
    using length_frame [of FULLMESSAGE_SIZE "strip_newline line @ '' joined''"] u by simp
  ultimately show ?thesis
    using join assms(2) client_write_Some [OF join(3)] by (simp add: client_wf_def)
next
  case (joinfail line rest)
  from fgets_Some [OF joinfail(2)] have "length line \<le> 49" by (simp add: USERNAME_SIZE_def)
  with strip_newline_bounds [of line] joinfail assms(2) show ?thesis
    by (simp add: client_wf_def)
next
  case (reconnect line rest)
  with assms(2) show ?thesis by (simp add: client_wf_def)
next
  case (quit line rest c2)
  have "length (cstr (snprintf FULLMESSAGE_SIZE (c_username c @ '' exited'')) @ [NUL]) \<le> 307"
    using length_frame [of FULLMESSAGE_SIZE "c_username c @ '' exited''"] assms(2)
    by (simp add: client_wf_def)
  with quit assms(2) client_write_Some [OF quit(5)] show ?thesis by (simp add: client_wf_def)
next
  case (msg line rest c2)
  from fgets_Some [OF msg(2)] have "length line \<le> 255" by (simp add: MESSAGE_SIZE_def)
  with length_cstr_le [of line] have "length (cstr line) \<le> 255" by simp
  then have "length (cstr (snprintf FULLMESSAGE_SIZE (c_username c @ '': '' @ cstr line)) @ [NUL]) \<le> 307"
    using length_frame [of FULLMESSAGE_SIZE "c_username c @ '': '' @ cstr line"] assms(2)
    by (simp add: client_wf_def)
  with msg assms(2) client_write_Some [OF msg(5)] show ?thesis by (simp add: client_wf_def)
next
  case (writefail line rest)
  with assms(2) show ?thesis by (simp add: client_wf_def)
qed

lemma chat_iter_continue:
  assumes "chat_iter c = Inr c'"
  shows "length (c_stdin c') < length (c_stdin c) \<and> c_serverFd c' = c_serverFd c"
  using assms
proof (cases rule: chat_iter_cases)
  case (join line rest c2)
  with fgets_Some [OF join(2)] client_write_Some [OF join(3)] show ?thesis
    by (simp add: USERNAME_SIZE_def)
next
  case (msg line rest c2)
  with fgets_Some [OF msg(2)] client_write_Some [OF msg(5)] show ?thesis
    by (simp add: MESSAGE_SIZE_def)
qed simp_all

lemma chat_iter_no_reconnect: "c_serverFd c \<noteq> -1 \<Longrightarrow> chat_iter c \<noteq> Inl (Reconnect, c')"
  by (auto simp: chat_iter_def Let_def split: if_splits option.splits)

lemma chat_loop_wf: "chat_loop n c = (res, c') \<Longrightarrow> client_wf c \<Longrightarrow> client_wf c'"
proof (induction n arbitrary: c)
  case 0
  then show ?case by simp
next
  case (Suc n)
  from chat_iter_wf [OF refl Suc.prems(2)] Suc.prems(1) Suc.IH show ?case
    by (auto split: sum.splits)
qed

lemma chat_loop_fuel: "length (c_stdin c) < n \<Longrightarrow> fst (chat_loop n c) \<noteq> OutOfFuel"
proof (induction n arbitrary: c)
  case 0
  then show ?case by simp
next
  case (Suc n)
  show ?case
  proof (cases "chat_iter c")
    case (Inl res)
    from chat_iter_cases [OF Inl] show ?thesis
      using Inl by cases auto
  next
    case (Inr c')
    with chat_iter_continue [OF Inr] Suc show ?thesis by simp
  qed
qed

lemma chat_loop_no_reconnect: "c_serverFd c \<noteq> -1 \<Longrightarrow> fst (chat_loop n c) \<noteq> Reconnect"
proof (induction n arbitrary: c)
  case 0
  then show ?case by simp
next
  case (Suc n)
  show ?case
  proof (cases "chat_iter c")
    case (Inl res)
    with chat_iter_no_reconnect [OF Suc.prems] show ?thesis by (cases res) auto
  next
    case (Inr c')
    with chat_iter_continue [OF Inr] Suc show ?thesis by simp
  qed
qed

lemma open_retry_Some: "open_retry rs = Some (fd, rs') \<Longrightarrow> fd \<noteq> -1"
  by (induction rs) (auto split: if_splits)

lemma client_main_wf: "client_main n opens c = (res, c') \<Longrightarrow> client_wf c \<Longrightarrow> client_wf c'"
proof (induction n arbitrary: opens c)
  case 0
  then show ?case by simp
next
  case (Suc n)
  show ?case
  proof (cases "open_retry opens")
    case None
    with Suc.prems show ?thesis by simp
  next
    case (Some p)
    obtain fd opens' where p: "p = (fd, opens')" by (cases p)
    show ?thesis
    proof (cases "fgets USERNAME_SIZE (c_stdin c)")
      case None
      with Suc.prems Some p show ?thesis by (auto simp: client_wf_def)
    next
      case (Some q)
      obtain pw rest where q: "q = (pw, rest)" by (cases q)
      let ?c1 = "c\<lparr>c_serverFd := fd, c_stdin := rest\<rparr>"
      have wf1: "client_wf ?c1" using Suc.prems(2) by (simp add: client_wf_def)
      obtain r2 c2 where ch: "chat_loop n ?c1 = (r2, c2)" by fastforce
      from chat_loop_wf [OF ch wf1] have "client_wf c2" .
      with Suc.prems Some q \<open>open_retry opens = Some p\<close> p ch wf1 Suc.IH show ?thesis
        by (auto simp: Let_def split: if_splits client_outcome.splits)
    qed
  qed
qed

lemma client_main_fuel:
  assumes "length (c_stdin c) < n"
  shows "fst (client_main (Suc n) opens c) \<noteq> OutOfFuel"
proof (cases "open_retry opens")
  case None
  then show ?thesis by simp
next
  case (Some p)
  obtain fd opens' where p: "p = (fd, opens')" by (cases p)
  with Some have fd: "fd \<noteq> -1" by (simp add: open_retry_Some)
  show ?thesis
  proof (cases "fgets USERNAME_SIZE (c_stdin c)")
    case None
    with Some p show ?thesis by simp
  next
    case (Some q)
    obtain pw rest where q: "q = (pw, rest)" by (cases q)
    let ?c1 = "c\<lparr>c_serverFd := fd, c_stdin := rest\<rparr>"
    from fgets_Some [of USERNAME_SIZE "c_stdin c" pw rest] Some q assms
    have "length (c_stdin ?c1) < n" by (simp add: USERNAME_SIZE_def)
    then have nf: "fst (chat_loop n ?c1) \<noteq> OutOfFuel" by (rule chat_loop_fuel)
    have nr: "fst (chat_loop n ?c1) \<noteq> Reconnect" by (rule chat_loop_no_reconnect) (simp add: fd)
    from nf nr \<open>open_retry opens = Some p\<close> p Some q show ?thesis
      by (auto simp: Let_def split: client_outcome.splits prod.splits)
  qed
qed

text \<open>A line without newline that does not start with \<open>exit\<close> keeps not doing so once \<open>fgets\<close> adds the newline.\<close>

lemma exit_take_nl:
  assumes "NL \<notin> set m" and "take 4 m \<noteq> ''exit''"
  shows "take 4 (m @ [NL]) \<noteq> ''exit''"
proof (cases "4 \<le> length m")
  case True
  then show ?thesis using assms(2) by simp
next
  case False
  then have "take 4 (m @ [NL]) = m @ [NL]" by simp
  moreover have "NL \<notin> set ''exit''" by simp
  ultimately show ?thesis by (metis in_set_conv_decomp)
qed

end
