(* ===== verification/System.thy ===== *)
theory System
  imports Server Pipe Client
begin

text \<open>
  The whole chat system: the server process, the named pipe, and the client processes
  that write into it.  A client is the program of \<open>Client\<close>: it opens the pipe for
  writing (line 25 of \<open>src/client.c\<close>), writes its frames, which \<open>client_main\<close>
  computes from its stdin, and exits, which closes its write end.  Its writes are at
  most 307 bytes, below \<open>PIPE_BUF\<close>, so each is appended to the pipe whole.

  The server side is \<open>sys_step\<close> with the environment's answers now fixed by the
  kernel: \<open>open(SERVER_PIPE_NAME, O_RDONLY)\<close> at line 96 returns the lowest free
  descriptor and blocks only while no client holds a write end (\<open>pipe_open_read\<close>); a
  handler's \<open>read\<close> takes bytes from the one pipe whatever descriptor it holds, returns
  0 only when the pipe is empty and no writer is left, and fails with EBADF on a
  descriptor that is not open; \<open>close\<close> frees the descriptor.  The server's start-up
  returned because the first client opened the pipe, so that client starts with its
  write end open.  \<open>wlog\<close> and \<open>rlog\<close> record every byte written to and read from the
  pipe, in order.
\<close>

section \<open>State and steps\<close>

datatype cstate = CIdle | COpen | CGone

record cproc =
  cst :: cstate
  cframes :: "cstring list"   \<comment> \<open>the frames the client has still to write\<close>

record system =
  srv :: server
  fifo :: pipe
  procs :: "cproc list"
  open_fds :: "fd list"       \<comment> \<open>the server process's open descriptors\<close>
  wlog :: cstring
  rlog :: cstring

text \<open>The descriptor \<open>open\<close> returns: the lowest one not in use.\<close>

definition lowest_free :: "fd list \<Rightarrow> fd" where
  "lowest_free fds = int (hd (filter (\<lambda>n. int n \<notin> set fds) [0..<Suc (length fds)]))"

text \<open>The frames of a client whose stdin holds \<open>inp\<close> and whose writes all succeed.\<close>

definition client_frames :: "cstring \<Rightarrow> cstring list" where
  "client_frames inp = c_frames (snd (client_main (Suc (Suc (length inp))) [3] (client_init inp [])))"

definition system_init :: "cstring list \<Rightarrow> system" where
  "system_init inps =
     \<lparr>srv = server_start 3, fifo = \<lparr>pbuf = [], pwriters = 1\<rparr>,
      procs = \<lparr>cst = COpen, cframes = client_frames (hd inps)\<rparr>
              # map (\<lambda>inp. \<lparr>cst = CIdle, cframes = client_frames inp\<rparr>) (tl inps),
      open_fds = [0, 1, 2, 3], wlog = [], rlog = []\<rparr>"

datatype sevent =
    SAccept                       \<comment> \<open>main's \<open>open\<close> at line 96 returns\<close>
  | SMainTick                     \<comment> \<open>any other step of main\<close>
  | SHandler nat handler_input    \<comment> \<open>a step of handler \<open>k\<close>; a read result must match the pipe\<close>
  | SOpenW nat                    \<comment> \<open>client \<open>j\<close> opens the pipe for writing\<close>
  | SWrite nat                    \<comment> \<open>client \<open>j\<close> writes its next frame\<close>
  | SExitW nat                    \<comment> \<open>client \<open>j\<close> exits, closing its write end\<close>

fun read_bytes :: "read_result \<Rightarrow> cstring" where
  "read_bytes (RBytes bs) = bs"
| "read_bytes REof = []"
| "read_bytes RErr = []"

text \<open>A server step, with the descriptors it closed freed.\<close>

definition lift_srv :: "system \<Rightarrow> server \<Rightarrow> system" where
  "lift_srv S s' =
     S\<lparr>srv := s',
       open_fds := filter (\<lambda>fd. fd \<notin> set (drop (length (closed (srv S))) (closed s'))) (open_fds S)\<rparr>"

definition set_proc :: "nat \<Rightarrow> cproc \<Rightarrow> system \<Rightarrow> system" where
  "set_proc j p S = S\<lparr>procs := (procs S)[j := p]\<rparr>"

fun s_step :: "sevent \<Rightarrow> system \<Rightarrow> system option" where
  "s_step SAccept S =
     (if pipe_open_read (fifo S)
      then (let fd = lowest_free (open_fds S)
            in map_option (\<lambda>s'. S\<lparr>srv := s', open_fds := open_fds S @ [fd]\<rparr>)
                 (sys_step (EvMain (MOpenRes fd)) (srv S)))
      else None)"
| "s_step SMainTick S = map_option (lift_srv S) (sys_step (EvMain MTick) (srv S))"
| "s_step (SHandler k HTick) S = map_option (lift_srv S) (sys_step (EvHandler k HTick) (srv S))"
| "s_step (SHandler k (HReadRes res)) S =
     (if k < length (handlers (srv S)) then
        (let fd = hfd (handlers (srv S) ! k) in
         if fd \<in> set (open_fds S) then
           (if 3 \<le> fd then
              (case pipe_read (fifo S) HANDLER_BUFSIZE res of
                 None \<Rightarrow> None
               | Some p' \<Rightarrow>
                   map_option (\<lambda>s'. (lift_srv S s')\<lparr>fifo := p', rlog := rlog S @ read_bytes res\<rparr>)
                     (sys_step (EvHandler k (HReadRes res)) (srv S)))
            else None)
         else if res = RErr
         then map_option (lift_srv S) (sys_step (EvHandler k (HReadRes res)) (srv S))
         else None)
      else None)"
| "s_step (SOpenW j) S =
     (if j < length (procs S) \<and> cst (procs S ! j) = CIdle \<and> mpc (acc (srv S)) \<noteq> MReturn
      then Some ((set_proc j ((procs S ! j)\<lparr>cst := COpen\<rparr>) S)\<lparr>fifo := pipe_open_write (fifo S)\<rparr>)
      else None)"
| "s_step (SWrite j) S =
     (if j < length (procs S) \<and> cst (procs S ! j) = COpen \<and> cframes (procs S ! j) \<noteq> []
         \<and> mpc (acc (srv S)) \<noteq> MReturn
      then (let f = hd (cframes (procs S ! j))
            in Some ((set_proc j ((procs S ! j)\<lparr>cframes := tl (cframes (procs S ! j))\<rparr>) S)
                       \<lparr>fifo := pipe_write (fifo S) f, wlog := wlog S @ f\<rparr>))
      else None)"
| "s_step (SExitW j) S =
     (if j < length (procs S) \<and> cst (procs S ! j) = COpen \<and> cframes (procs S ! j) = []
      then Some ((set_proc j ((procs S ! j)\<lparr>cst := CGone\<rparr>) S)\<lparr>fifo := pipe_close_write (fifo S)\<rparr>)
      else None)"

inductive sreach :: "system \<Rightarrow> bool" where
  start: "inps \<noteq> [] \<Longrightarrow> sreach (system_init inps)"
| step: "sreach S \<Longrightarrow> s_step ev S = Some S' \<Longrightarrow> sreach S'"

fun s_run :: "sevent list \<Rightarrow> system \<Rightarrow> system option" where
  "s_run [] S = Some S"
| "s_run (e # es) S = (case s_step e S of None \<Rightarrow> None | Some S' \<Rightarrow> s_run es S')"

section \<open>Lemmas\<close>

lemma s_run_reach: "sreach S \<Longrightarrow> s_run es S = Some T \<Longrightarrow> sreach T"
proof (induction es arbitrary: S)
  case Nil
  then show ?case by simp
next
  case (Cons e es)
  then obtain S' where "s_step e S = Some S'" and "s_run es S' = Some T"
    by (auto split: option.splits)
  with Cons show ?case by (blast intro: sreach.step)
qed

lemma sreach_by_run: "inps \<noteq> [] \<Longrightarrow> s_run es (system_init inps) = Some S \<Longrightarrow> sreach S"
  by (blast intro: sreach.start s_run_reach)

lemma lift_srv_fields [simp]:
  "srv (lift_srv S s') = s'" "fifo (lift_srv S s') = fifo S" "procs (lift_srv S s') = procs S"
  "wlog (lift_srv S s') = wlog S" "rlog (lift_srv S s') = rlog S"
  by (simp_all add: lift_srv_def)

lemma set_proc_fields [simp]:
  "srv (set_proc j p S) = srv S" "fifo (set_proc j p S) = fifo S"
  "procs (set_proc j p S) = (procs S)[j := p]"
  "wlog (set_proc j p S) = wlog S" "rlog (set_proc j p S) = rlog S"
  by (simp_all add: set_proc_def)

text \<open>A system step is a step of the server or leaves the server unchanged.\<close>

lemma s_step_srv:
  assumes "s_step ev S = Some S'"
  shows "srv S' = srv S \<or> (\<exists>e. sys_step e (srv S) = Some (srv S'))"
  using assms
  by (cases "(ev, S)" rule: s_step.cases)
     (auto simp: Let_def simp del: sys_step.simps split: if_splits option.splits)

lemma sreach_reach: "sreach S \<Longrightarrow> reach (srv S)"
proof (induction rule: sreach.induct)
  case (start inps)
  have "server_init \<lparr>unlink_ret = 0, unlink_errno = 0, mkfifo_ret = 0, open_ret = 3\<rparr> = Inr 3"
    by (simp add: server_init_def)
  then show ?case by (simp add: system_init_def reach.start)
next
  case (step S ev S')
  from s_step_srv [OF step.hyps(2)] step.IH show ?case by (auto intro: reach.step)
qed

end
