(* ===== verification/Spec2Isabelle.thy ===== *)
theory Spec2Isabelle
  imports Serialised Shutdown System
begin

text \<open>
  \<^bold>\<open>A verification development of the named-pipe chat server and client.\<close>

  \<^emph>\<open>The program.\<close>  \<open>src/server.c\<close> recreates the FIFO \<open>/tmp/ServerPipe\<close>, opens it and
  then runs an acceptance loop in its main thread: it opens the FIFO again, and under
  \<open>clientsMutex\<close> either counts the connection in \<open>connectedClientsCount\<close> and starts a
  \<open>ClientHandler\<close> thread with \<open>pthread_create(&tid, NULL, ClientHandler, &clientFd)\<close>,
  or closes it when \<open>MAX_CLIENTS\<close> (10) are counted; then it tests \<open>exitFlag\<close>.  Each
  handler reads its descriptor through the pointer it was given, counts itself again,
  unlocks twice, and loops: read up to 256 bytes, print them with \<open>printf("%s")\<close>, on
  end-of-stream decrement the count and stop, and test \<open>exitFlag\<close> under the mutex.
  \<open>src/client.c\<close> retries \<open>open\<close> until the FIFO exists, checks a password with
  \<open>strncmp\<close>, reads a username and then messages with \<open>fgets\<close>, and writes frames
  \<open>"<name> joined"\<close>, \<open>"<name>: <line>"\<close> and \<open>"<name> exited"\<close>, each with its NUL.
  The two programs meet only in the bytes of the FIFO.

  \<^emph>\<open>The theories.\<close>
  \<^item> \<open>Chat_Prelude\<close>: file descriptors, C strings (\<open>cstr\<close>: the bytes before the first
    NUL), the constants \<open>MAX_CLIENTS\<close> and \<open>HANDLER_BUFSIZE\<close>, the named collections and
    the list lemmas the components share.
  \<^item> \<open>Registry\<close>: the globals of lines 19--21 as the record \<open>registry\<close>; the mutex as its
    holder; \<open>pthread_mutex_lock\<close> (blocks while held) and \<open>pthread_mutex_unlock\<close> (clears
    the holder whoever calls, as glibc's default mutex does); the spec's \<open>tryAdmit\<close>
    contract as \<open>spec_try_admit\<close>.
  \<^item> \<open>ClientHandler\<close>: \<open>ClientHandler\<close> (lines 32--69) as a thread with a program
    counter \<open>hloc\<close>, one location per access to shared state, and the step function
    \<open>handler_step\<close>; \<open>handler_run\<close> runs one handler alone.  The buffer is kept as its
    written prefix, so that \<open>printf_line\<close> can say when \<open>%s\<close> runs past what \<open>read\<close>
    stored (\<open>Overread\<close>).  \<open>contrib\<close> is what a handler's admission and its own
    increments and decrements have added to the count when none is lost, and
    \<open>handler_run_count\<close> shows that a handler run alone changes the count by exactly that.
  \<^item> \<open>ServerMain\<close>: start-up (lines 72--91) as \<open>server_init\<close>, a function of the results
    of \<open>unlink\<close>, \<open>mkfifo\<close> and \<open>open\<close> returning an \<open>init_error\<close> or the descriptor;
    the acceptance loop and the code after it (lines 95--124) as \<open>main_step\<close> over
    \<open>mloc\<close>, with the capacity test of line 99 as \<open>admit\<close>.
  \<^item> \<open>Server\<close>: the process as the record \<open>server\<close> (registry, main thread, handlers in
    creation order, closed descriptors, stdout).  \<open>sys_step\<close> lets one thread take one
    step, with the environment's answer to its system call; \<open>reach\<close> is the inductive
    set of states reachable from a successful start-up; \<open>run\<close> executes a schedule.
    Three invariants hold in every reachable state, each proved by rule induction on
    \<open>reach\<close>: \<open>server_inv\<close> (\<open>exitFlag\<close> is 0, main is in its loop, no handler is on
    the exit branch), \<open>holder_inv\<close> (the mutex's holder is in one of its critical
    sections), and \<open>count_range_inv\<close> (the count and every value
    loaded and not yet stored lie between minus the decrements and the increments
    stored so far, counted by \<open>decs_stored\<close>, \<open>incs_stored\<close> and \<open>main_pending\<close>).
  \<^item> \<open>Serialised\<close>: the runs on which the extra unlock of line 42 only ever finds
    the mutex free (\<open>harmless\<close>, \<open>reach_ser\<close>, \<open>run_ser\<close>).  On them the mutex excludes
    (\<open>excl_inv\<close>), no update is lost (\<open>exact_inv\<close>) and the capacity test still holds
    when main creates the thread (\<open>admit_bound\<close>), each by rule induction on
    \<open>reach_ser\<close> over per-thread lemmas of \<open>ClientHandler\<close> and \<open>ServerMain\<close>
    (\<open>handler_step_mutex\<close>, \<open>handler_step_writes\<close>, \<open>main_step_mutex\<close>,
    \<open>main_step_exact\<close>).
  \<^item> \<open>Shutdown\<close>: the spec's \<open>requestShutdown()\<close> (section 4.5), which the code never
    calls, modelled from the spec as an external event (\<open>request_shutdown\<close>,
    \<open>ext_step\<close>, \<open>reach_ext\<close>, \<open>run_ext\<close>); \<open>admissions_left\<close> bounds what main can still
    create once the flag is set.
  \<^item> \<open>Client\<close>: \<open>main\<close> of \<open>src/client.c\<close> as \<open>client_main\<close> (connect, authenticate,
    chat) with the inner loop's body as \<open>chat_iter\<close> and the loop as \<open>chat_loop\<close>;
    \<open>fgets\<close>, \<open>strncmp\<close>, \<open>snprintf\<close> and \<open>write\<close> modelled on the arrays the code
    passes them.  \<open>client_wf\<close> bounds the username and the frames.  The loops take
    fuel; \<open>client_main_fuel\<close> shows that more fuel than bytes on stdin is enough for the
    model to stop with an outcome, which is how \<open>client_frames\<close> chooses its fuel.  The
    outcome \<open>StdinExhausted\<close> is where the model stops and the real client goes on with
    an indeterminate buffer (it does not check \<open>fgets\<close> for \<open>NULL\<close>, and may loop).
  \<^item> \<open>Pipe\<close>: the named pipe as the kernel keeps it: pending bytes and write ends
    (\<open>pipe\<close>); \<open>open\<close> for reading returns at once while a writer exists
    (\<open>pipe_open_read\<close>), writes of at most \<open>PIPE_BUF\<close> bytes are atomic
    (\<open>pipe_write\<close>), \<open>read\<close> returns a non-empty prefix of the pending bytes or
    end-of-stream when none is pending and no writer is left (\<open>pipe_read\<close>).
  \<^item> \<open>System\<close>: the server, the pipe and the client processes together (\<open>system\<close>,
    \<open>s_step\<close>, \<open>sreach\<close>, \<open>s_run\<close>).  A client opens the pipe, writes the frames
    \<open>client_main\<close> computes from its stdin (\<open>client_frames\<close>) and exits; main's
    \<open>open\<close> returns the lowest free descriptor (\<open>lowest_free\<close>); a handler's read
    takes bytes from the one pipe.  Every system state's server part is reachable
    (\<open>sreach_reach\<close>), so the server's invariants hold there.  \<open>wlog\<close> and \<open>rlog\<close>
    record the bytes written to and read from the pipe.
  \<^item> This theory: the claims C1--C30, their witnesses, and the runs the witnesses use.

  \<^emph>\<open>What the claims show.\<close>
  C1--C6, the registry: updates of the count can be lost (C2), and through them more
  than ten clients can be served at once (C1); every admitted client is counted twice,
  so the count exceeds the capacity (C3), and released once, so slots are never given
  back (C4); the shutdown code is unreachable (C5); lost updates or not, the count
  stays within \<open>[-n, 2n + 1]\<close> for \<open>n\<close> handlers created (C6).  C7--C9: on the runs
  where line 42 is harmless the mutex excludes, no update is lost, and admission
  refines the spec's \<open>tryAdmit\<close>, so line 42 is the source of C1 and C2.  C10--C12:
  with shutdown requested from outside, main creates at most one more thread, and can
  create one, then runs its shutdown code and the process ends.  C13--C15, the system
  with its pipe: one client takes all ten slots, and at the sink one client's
  messages can be reordered or lost.  C16--C18: the extra unlock breaks mutual
  exclusion, \<open>&clientFd\<close> lets two handlers share a descriptor, and a failed \<open>open\<close> is
  admitted.  C19--C23: a handler's life, run alone, leaves the count unchanged; the
  end-of-stream and shutdown exits; what \<open>printf("%s")\<close> makes of coalesced and
  unterminated reads.  C24--C29: the client's password and exit tests are prefix
  tests, frames are at most 307 bytes, its reconnect branch is dead, a wrong password
  writes nothing, and a message is sent with its newline.  C30: the unlock of line 42
  is by a non-owner on every run.

  \<^emph>\<open>Granularity, bounds and fuel.\<close>  A thread's step is one access to shared state or
  one system call: each lock, unlock and test is a step, and \<open>connectedClientsCount++\<close>
  and \<open>--\<close> are two steps each, a load into a register (\<open>hreg\<close>, \<open>mreg\<close>) and a
  store, which is what the compiled code does.  This granularity is needed: the
  mutex does not exclude (C16), so other threads run between the load and the store
  and the lost update of C2 is a real behaviour.  Statements that touch only
  thread-local data are merged into the neighbouring step.  In \<open>Server\<close> the
  environment (the scheduler, the results of \<open>open\<close> and \<open>read\<close>) is free: any answer
  the call can give, so its invariants hold whatever the clients do; in \<open>System\<close> the
  pipe and the clients give those answers.
  The client's loops take fuel; \<open>client_main_fuel\<close> shows that more fuel than
  bytes on stdin is enough, since every iteration consumes input.

  \<^emph>\<open>Not modelled.\<close>  \<open>pthread_create\<close> failing (its result is not checked, so a
  failure would leave the increment of line 100 with no handler); resource limits on
  descriptors and the \<open>open\<close> failures they cause inside the system model (the server
  model of \<open>Server\<close> lets \<open>open\<close> return -1, C18); writes longer than \<open>PIPE_BUF\<close>, which
  the client never makes (C26); signals (\<open>SIGPIPE\<close> once the server has exited);
  stderr and the prompts; the client's behaviour after \<open>fgets\<close> returns \<open>NULL\<close>, which
  reads indeterminate buffers.
\<close>

section \<open>Runs used by the witnesses\<close>

text \<open>
  A start-up in which the pipe did not exist yet (\<open>unlink\<close> fails with ENOENT) and
  the server's own descriptor is 3; a round of the acceptance loop for a connection on
  descriptor \<open>fd\<close> (lines 96--115, the exit test failing) that admits it; a handler that runs lines 33--39; a handler whose peer hangs up (lines
  45--68), and the same from the read on.
\<close>

definition demo_env :: init_env where
  "demo_env = \<lparr>unlink_ret = -1, unlink_errno = ENOENT, mkfifo_ret = 0, open_ret = 3\<rparr>"

definition admit_round :: "fd \<Rightarrow> event list" where
  "admit_round fd = EvMain (MOpenRes fd) # replicate 9 (EvMain MTick)"


definition handler_joins :: "nat \<Rightarrow> event list" where
  "handler_joins k = replicate 5 (EvHandler k HTick)"

definition handler_hangup :: "nat \<Rightarrow> event list" where
  "handler_hangup k = EvHandler k (HReadRes REof) # replicate 5 (EvHandler k HTick)"

definition handler_leaves :: "nat \<Rightarrow> event list" where
  "handler_leaves k = EvHandler k HTick # handler_hangup k"

definition over_capacity_run :: "event list" where
  "over_capacity_run =
     concat (map (\<lambda>k. admit_round (int k + 4)) [0..<6]) @ concat (map handler_joins [0..<6])"

definition leak_run :: "event list" where
  "leak_run =
     concat (map (\<lambda>k. admit_round (int k + 4) @ handler_joins k @ handler_leaves k) [0..<10])"

text \<open>
  The lost update.  Handlers 0 and 1 are admitted and handler 0 runs lines 33--39.
  Main admits a third connection and has passed the test of line 99, holding the
  mutex; handler 0 runs line 42 and so releases main's mutex; handler 1 locks it
  and loads the count (3) for its line 38; main loads the count (3) for its line 100
  and stores 4; handler 1 stores 4.  Two increments ran and the count grew by one.
\<close>

definition race_run :: "event list" where
  "race_run =
     admit_round 4 @ admit_round 5 @ handler_joins 0 @
     [EvMain (MOpenRes 6), EvMain MTick, EvMain MTick, EvHandler 0 HTick] @
     replicate 3 (EvHandler 1 HTick) @ replicate 2 (EvMain MTick) @ [EvHandler 1 HTick] @
     replicate 5 (EvMain MTick) @ [EvHandler 1 HTick]"

text \<open>
  Lost admissions.  Handlers 0 and 1 are admitted; handler 1 runs lines 33--39, and
  handler 0 locks and loads the count (3) for its line 38.  Handler 1 runs line 42,
  releasing handler 0's mutex, and main admits seven connections while handler 0 is
  between its load and its store; then handler 0 stores 4, wiping out the seven
  increments of line 100, and main admits six more.  No client has left.
\<close>

definition capacity_bypass_run :: "event list" where
  "capacity_bypass_run =
     admit_round 4 @ admit_round 5 @ handler_joins 1 @ replicate 3 (EvHandler 0 HTick) @
     [EvHandler 1 HTick] @ concat (map (\<lambda>k. admit_round (int k + 6)) [0..<7]) @
     [EvHandler 0 HTick] @ concat (map (\<lambda>k. admit_round (int k + 13)) [0..<6])"

definition mutex_break_run :: "event list" where
  "mutex_break_run =
     EvMain (MOpenRes 4) # replicate 6 (EvMain MTick) @ handler_joins 0 @
     [EvMain MTick, EvHandler 0 HTick, EvHandler 0 (HReadRes RErr), EvHandler 0 HTick]"

definition alias_run :: "event list" where
  "alias_run = admit_round 4 @ admit_round 5 @ [EvHandler 0 HTick, EvHandler 1 HTick]"

definition failed_open_run :: "event list" where
  "failed_open_run = admit_round (-1) @ [EvHandler 0 HTick]"


text \<open>
  A client's stdin for the session of the spec's end-to-end scenario.
\<close>

definition e2e_input :: cstring where
  "e2e_input = ''password\<newline>alice\<newline>hello\<newline>exit\<newline>''"



definition over_capacity_state :: server where
  "over_capacity_state = the (run over_capacity_run (server_start 3))"

definition leak_state :: server where
  "leak_state = the (run leak_run (server_start 3))"

lemmas run_eval_simps =
  admit_round_def handler_joins_def handler_hangup_def handler_leaves_def
  server_start_def acceptor_init_def registry_init_def upt_rec numeral_eq_Suc step_simps

lemma demo_env_init: "server_init demo_env = Inr 3"
  by (simp add: server_init_def demo_env_def ENOENT_def)

lemma over_capacity_run_eval:
  "run over_capacity_run (server_start 3) = Some over_capacity_state
   \<and> connectedClientsCount (reg over_capacity_state) = 12
   \<and> length (handlers over_capacity_state) = 6
   \<and> hpc (handlers over_capacity_state ! 0) = HUnlock0b"
  by (simp add: over_capacity_state_def over_capacity_run_def run_eval_simps)

lemma reach_over_capacity_state: "reach over_capacity_state"
  using reach_by_run [OF demo_env_init] over_capacity_run_eval by blast

lemma leak_run_eval:
  "run leak_run (server_start 3) = Some leak_state
   \<and> connectedClientsCount (reg leak_state) = 10 \<and> length (handlers leak_state) = 10
   \<and> list_all (\<lambda>h. hpc h = HExit) (handlers leak_state)
   \<and> mpc (acc leak_state) = MOpen \<and> clientsMutex (reg leak_state) = None
   \<and> exitFlag (reg leak_state) = 0"
  by (simp add: leak_state_def leak_run_def run_eval_simps)

lemma reach_leak_state: "reach leak_state"
  using reach_by_run [OF demo_env_init] leak_run_eval by blast

section \<open>The registry count\<close>

text \<open>
  C1. The capacity is not enforced: more than \<open>MAX_CLIENTS\<close> clients can be served at
  the same time.  A handler's store of line 38 can overwrite the increments main made
  for admissions in between (C2), so the count falls below the clients admitted; there
  is a reachable state with fifteen handler threads running and none exited.
\<close>

theorem more_than_max_clients_served:
  "\<exists>s. reach s \<and> MAX_CLIENTS < int (live_handlers s)"
proof -
  obtain s where run: "run capacity_bypass_run (server_start 3) = Some s"
    and n: "live_handlers s = 15"
    by (simp add: capacity_bypass_run_def run_eval_simps live_handlers_def)
  from reach_by_run [OF demo_env_init run] n show ?thesis by auto
qed

text \<open>
  C2. Updates of \<open>connectedClientsCount\<close> can be lost.  Because line 42 releases a
  mutex its thread does not hold, a handler's \<open>connectedClientsCount++\<close> (line 38) can
  run between the load and the store of main's (line 100): there is a reachable state
  in which the two increments of main and the two of the handlers so far have been
  stored (\<open>contrib\<close> sums to 5) but the count is 4.
\<close>

theorem lost_update_reachable:
  "\<exists>s. reach s \<and> connectedClientsCount (reg s) < sum_list (map contrib (handlers s))"
proof -
  obtain s where run: "run race_run (server_start 3) = Some s"
    and lt: "connectedClientsCount (reg s) < sum_list (map contrib (handlers s))"
    by (simp add: race_run_def run_eval_simps contrib_def)
  from reach_by_run [OF demo_env_init run] lt show ?thesis by blast
qed

text \<open>
  C3. The registry's documented invariant \<open>activeCount \<le> capacity\<close> does not hold:
  after six admissions whose handlers have run line 38, \<open>connectedClientsCount\<close> is 12,
  because each admitted client is counted twice (lines 100 and 38).
\<close>

theorem count_exceeds_capacity:
  "\<exists>s. reach s \<and> MAX_CLIENTS < connectedClientsCount (reg s)"
proof -
  obtain s where run: "run over_capacity_run (server_start 3) = Some s"
    and c: "connectedClientsCount (reg s) = 12"
    by (simp add: over_capacity_run_def run_eval_simps)
  from reach_by_run [OF demo_env_init run] c show ?thesis by auto
qed

text \<open>
  C4. The slots of clients that have gone are never given back: there is a
  reachable state in which all ten handlers have seen end-of-stream and exited,
  and \<open>connectedClientsCount\<close> still equals \<open>MAX_CLIENTS\<close>, so the test of line 99
  rejects every new connection although no client is connected.
\<close>

theorem all_clients_gone_count_stuck:
  "\<exists>s. reach s \<and> handlers s \<noteq> [] \<and> list_all (\<lambda>h. hpc h = HExit) (handlers s)
       \<and> connectedClientsCount (reg s) = MAX_CLIENTS"
proof -
  obtain s where run: "run leak_run (server_start 3) = Some s"
    and p: "handlers s \<noteq> [] \<and> list_all (\<lambda>h. hpc h = HExit) (handlers s)
            \<and> connectedClientsCount (reg s) = MAX_CLIENTS"
    by (simp add: leak_run_def run_eval_simps)
  from reach_by_run [OF demo_env_init run] p show ?thesis by blast
qed

text \<open>
  C5. The shutdown path is dead code: in every reachable state \<open>exitFlag\<close> is 0, the
  main thread is inside its loop (lines 95--116), so lines 112 and 118--124 never
  run and \<open>main\<close> never returns, and no handler takes the exit branch of line 60.
\<close>

theorem shutdown_unreachable:
  assumes "reach s"
  shows "exitFlag (reg s) = 0
         \<and> mpc (acc s) \<notin> {MUnlockBreak, MLockExit, MSetExit, MUnlockExit, MCloseServer, MReturn}
         \<and> list_all (\<lambda>h. hpc h \<noteq> HUnlockBreak) (handlers s)"
  using reach_inv [OF assms]
  by (auto simp: server_inv_def main_in_loop_def list_all_iff)

theorem shutdown_unreachable_witness:
  "reach leak_state \<and> exitFlag (reg leak_state) = 0 \<and> mpc (acc leak_state) \<noteq> MReturn"
  using shutdown_unreachable [OF reach_leak_state] reach_leak_state by auto

text \<open>
  C6. The count stays within bounds fixed by the number of handler threads created,
  lost updates or not: every value stored is a value loaded plus or minus one, so
  \<open>connectedClientsCount\<close> lies between minus the decrements and the increments
  stored so far, that is within \<open>[-n, 2n + 1]\<close> for \<open>n\<close> handlers.  In particular the
  \<open>int\<close> cannot overflow while fewer than \<open>2^30\<close> handlers have been created, which is
  what makes the unbounded \<open>int\<close> of the model faithful to the C \<open>int\<close>.
\<close>

theorem count_within_thread_bounds:
  assumes "reach s"
  shows "- int (length (handlers s)) \<le> connectedClientsCount (reg s)
         \<and> connectedClientsCount (reg s) \<le> 2 * int (length (handlers s)) + 1"
  using count_range_thread_bounds [OF reach_count_range [OF assms]] .

theorem count_within_thread_bounds_witness:
  "reach over_capacity_state
   \<and> - int (length (handlers over_capacity_state)) \<le> connectedClientsCount (reg over_capacity_state)
   \<and> connectedClientsCount (reg over_capacity_state)
       \<le> 2 * int (length (handlers over_capacity_state)) + 1"
  using count_within_thread_bounds [OF reach_over_capacity_state] reach_over_capacity_state
  by simp

section \<open>Serialised runs: the races come from line 42\<close>

text \<open>
  C7. On every run in which the extra unlock of line 42 only ever finds the mutex
  free (\<open>reach_ser\<close>), the mutex gives mutual exclusion: no two threads are in
  critical sections at once.  Every schedule of C16 and C2 executes line 42 while
  another thread holds the mutex.
\<close>

theorem serialised_mutual_exclusion:
  assumes "reach_ser s" and "in_critical t s" and "in_critical u s"
  shows "t = u"
  using excl_invD [OF reach_ser_excl [OF assms(1)]] assms(2,3) by simp

theorem serialised_mutual_exclusion_witness:
  "\<exists>s. reach_ser s \<and> in_critical Main s \<and> length (handlers s) = 1
       \<and> \<not> in_critical (Worker 0) s"
proof -
  obtain s where run: "run_ser (admit_round 4 @ [EvMain (MOpenRes 5), EvMain MTick]) (server_start 3)
                         = Some s"
    and cs: "in_critical Main s" and n: "length (handlers s) = 1"
    by (simp add: run_eval_simps)
  have r: "reach_ser s" by (rule reach_ser_by_run [OF demo_env_init run])
  have "\<not> in_critical (Worker 0) s"
    using serialised_mutual_exclusion [OF r cs, of "Worker 0"] by auto
  with r cs n show ?thesis by blast
qed

text \<open>
  C8. On those runs no update is lost: \<open>connectedClientsCount\<close> is exactly the sum of
  what each handler's admission and its own increments and decrements added, plus the
  increment main has stored for a thread it is about to create.
\<close>

theorem serialised_no_lost_update:
  assumes "reach_ser s"
  shows "connectedClientsCount (reg s) = sum_list (map contrib (handlers s)) + main_pending (acc s)"
  using reach_ser_exact [OF assms] by (simp add: exact_inv_def)

theorem serialised_no_lost_update_witness:
  "reach_ser leak_state
   \<and> connectedClientsCount (reg leak_state)
       = sum_list (map contrib (handlers leak_state)) + main_pending (acc leak_state)"
proof -
  have run: "run_ser leak_run (server_start 3) = Some leak_state"
    by (simp add: leak_state_def leak_run_def run_eval_simps)
  have r: "reach_ser leak_state" by (rule reach_ser_by_run [OF demo_env_init run])
  from serialised_no_lost_update [OF r] r show ?thesis by simp
qed

text \<open>
  C9. On those runs the acceptance loop refines the registry contract of the spec:
  whenever main creates a handler thread, fewer than \<open>MAX_CLIENTS\<close> workers are
  running, so \<open>spec_try_admit\<close> admits as well, and the number of running workers
  afterwards is the one \<open>spec_try_admit\<close> returns.  (The converse fails: C4 is a state
  where the contract admits and the code rejects; and off these runs C1 breaks it.)
\<close>

theorem serialised_admission_refines_try_admit:
  assumes "reach_ser s" and "sys_step (EvMain i) s = Some s'"
    and "length (handlers s') \<noteq> length (handlers s)"
  shows "spec_try_admit (live_handlers s) = Some (live_handlers s')"
proof -
  from assms(2) obtain r' a' e where
    ms: "main_step (mpc (acc s)) i (reg s) (acc s) = Some (r', a', e)" and
    s': "s' = apply_main_effect e (s\<lparr>reg := r', acc := a'\<rparr>)"
    by (auto split: option.splits)
  from s' assms(3) have sp: "e = MSpawn" by (auto split: if_splits)
  with ms have at: "mpc (acc s) = MCreate" using main_step_spawn by blast
  from reach_ser_exact [OF assms(1)] have ex: "exact_inv s" and "admit_bound (reg s) (acc s)"
    by simp_all
  with at have "connectedClientsCount (reg s) \<le> MAX_CLIENTS"
    by (simp add: admit_bound_def)
  moreover from exact_live_le_count [OF ex] at
  have "int (live_handlers s) + 1 \<le> connectedClientsCount (reg s)"
    by (simp add: main_pending_def)
  moreover have "live_handlers s' = Suc (live_handlers s)"
    using s' sp live_handlers_spawn [of "s\<lparr>reg := r', acc := a'\<rparr>"]
    by (simp add: live_handlers_def)
  ultimately show ?thesis by (simp add: spec_try_admit_def)
qed

theorem serialised_admission_refines_try_admit_witness:
  "\<exists>s s'. reach_ser s \<and> sys_step (EvMain MTick) s = Some s'
     \<and> length (handlers s') \<noteq> length (handlers s)
     \<and> spec_try_admit (live_handlers s) = Some (live_handlers s')"
proof -
  obtain s where run: "run_ser (EvMain (MOpenRes 4) # replicate 4 (EvMain MTick)) (server_start 3)
                         = Some s"
    and at: "mpc (acc s) = MCreate" and n: "handlers s = []"
    by (simp add: run_eval_simps)
  have r: "reach_ser s" by (rule reach_ser_by_run [OF demo_env_init run])
  from at obtain s' where st: "sys_step (EvMain MTick) s = Some s'"
    and grow: "length (handlers s') \<noteq> length (handlers s)"
    using n by simp
  from serialised_admission_refines_try_admit [OF r st grow] r st grow show ?thesis by blast
qed

section \<open>Shutdown requested from outside\<close>

text \<open>
  A run that requests shutdown (the spec's \<open>requestShutdown\<close>, see \<open>Shutdown\<close>) while
  main waits in \<open>open\<close>, and a connection that arrives afterwards.
\<close>

definition shutdown_admit_run :: "ext_event list" where
  "shutdown_admit_run = map Ev (EvMain (MOpenRes 4) # replicate 5 (EvMain MTick))"

text \<open>
  C10. Once shutdown has been requested, the acceptance loop creates at most one more
  handler thread, whatever the threads and the environment do: the flag is never
  cleared, and main reads it at line 111 before it can go round the loop again.
\<close>

theorem shutdown_creates_at_most_one:
  assumes "reach_ext s" and "exitFlag (reg s) \<noteq> 0" and "run_ext es s = Some s'"
  shows "length (handlers s') \<le> Suc (length (handlers s))"
  using run_ext_after_shutdown [OF assms(3,2)] admissions_left_le_one [of "mpc (acc s)"]
  by simp

theorem shutdown_creates_at_most_one_witness:
  "\<exists>s s'. reach_ext s \<and> exitFlag (reg s) \<noteq> 0 \<and> run_ext shutdown_admit_run s = Some s'
          \<and> length (handlers s') \<le> Suc (length (handlers s))"
proof -
  obtain s where run: "run_ext [EvRequestShutdown] (server_start 3) = Some s"
    and fl: "exitFlag (reg s) \<noteq> 0"
    by (simp add: run_eval_simps request_shutdown_def)
  have r: "reach_ext s" by (rule reach_ext_by_run [OF demo_env_init run])
  from run obtain s' where run': "run_ext shutdown_admit_run s = Some s'"
    by (auto simp: shutdown_admit_run_def run_eval_simps request_shutdown_def)
  from shutdown_creates_at_most_one [OF r fl run'] r fl run' show ?thesis by blast
qed

text \<open>
  C11. The spec says that after \<open>requestShutdown()\<close> the acceptance loop admits no
  further connections; the code admits one more: a connection that arrives after the
  request is tested against the capacity and given a handler before main looks at
  the flag.
\<close>

theorem shutdown_still_admits:
  "\<exists>s s'. reach_ext s \<and> exitFlag (reg s) \<noteq> 0 \<and> run_ext shutdown_admit_run s = Some s'
          \<and> length (handlers s') = Suc (length (handlers s))"
proof -
  obtain s where run: "run_ext [EvRequestShutdown] (server_start 3) = Some s"
    and fl: "exitFlag (reg s) \<noteq> 0" and n: "handlers s = []"
    by (simp add: run_eval_simps request_shutdown_def)
  have r: "reach_ext s" by (rule reach_ext_by_run [OF demo_env_init run])
  from run obtain s' where run': "run_ext shutdown_admit_run s = Some s'"
    and n': "length (handlers s') = 1"
    by (auto simp: shutdown_admit_run_def run_eval_simps request_shutdown_def)
  from r fl run' n n' show ?thesis by auto
qed

text \<open>
  C12. With the flag set and the mutex free, main at the lock of line 110 leaves the
  loop and runs the shutdown code: it sets \<open>exitFlag\<close> again, closes \<open>serverFd\<close> and
  returns, in seven steps; after that no thread of the process takes a step, so
  handlers still running are ended with the process, not drained.
\<close>

theorem shutdown_path_completes:
  assumes "exitFlag (reg s) \<noteq> 0" and "clientsMutex (reg s) = None" and "mpc (acc s) = MLock2"
  shows "\<exists>s'. run_ext (replicate 7 (Ev (EvMain MTick))) s = Some s'
              \<and> mpc (acc s') = MReturn \<and> closed s' = closed s @ [serverFd (acc s)]
              \<and> handlers s' = handlers s \<and> clientsMutex (reg s') = None
              \<and> (\<forall>ev. ext_step ev s' = None)"
proof -
  from assms obtain s' where run: "run_ext (replicate 7 (Ev (EvMain MTick))) s = Some s'"
    and p: "mpc (acc s') = MReturn \<and> closed s' = closed s @ [serverFd (acc s)]
            \<and> handlers s' = handlers s \<and> clientsMutex (reg s') = None"
    by (simp add: numeral_eq_Suc step_simps)
  have "ext_step ev s' = None" for ev
  proof (cases ev)
    case (Ev e)
    with p show ?thesis by (cases e) auto
  qed (use p in simp)
  with run p show ?thesis by blast
qed

theorem shutdown_path_completes_witness:
  "\<exists>s. reach_ext s \<and> exitFlag (reg s) \<noteq> 0 \<and> clientsMutex (reg s) = None
       \<and> mpc (acc s) = MLock2 \<and> length (handlers s) = 1
       \<and> (\<exists>s'. run_ext (replicate 7 (Ev (EvMain MTick))) s = Some s' \<and> mpc (acc s') = MReturn)"
proof -
  obtain s where run: "run_ext (EvRequestShutdown # shutdown_admit_run @ [Ev (EvMain MTick)])
                         (server_start 3) = Some s"
    and p: "exitFlag (reg s) \<noteq> 0 \<and> clientsMutex (reg s) = None \<and> mpc (acc s) = MLock2
            \<and> length (handlers s) = 1"
    by (simp add: shutdown_admit_run_def run_eval_simps request_shutdown_def)
  have r: "reach_ext s" by (rule reach_ext_by_run [OF demo_env_init run])
  from p have "exitFlag (reg s) \<noteq> 0" "clientsMutex (reg s) = None" "mpc (acc s) = MLock2"
    by simp_all
  from shutdown_path_completes [OF this] r p show ?thesis by blast
qed

section \<open>The system: server, pipe and clients\<close>

text \<open>
  Schedules of the system of \<open>System\<close> with one client running the spec's session
  (\<open>e2e_input\<close>): the acceptance loop going round ten times; two handlers started for
  the one client, each reading one frame and printing it; and one handler that reads
  the whole session in one \<open>read\<close>, then end-of-stream once the client has exited.
\<close>

definition fill_run :: "sevent list" where
  "fill_run = concat (replicate 10 (SAccept # replicate 9 SMainTick))"

definition two_handlers_run :: "sevent list" where
  "two_handlers_run =
     SAccept # replicate 9 SMainTick @ SAccept # replicate 9 SMainTick
     @ replicate 6 (SHandler 0 HTick) @ replicate 6 (SHandler 1 HTick)"

definition inversion_run :: "sevent list" where
  "inversion_run =
     two_handlers_run @
     [SWrite 0, SWrite 0, SHandler 0 (HReadRes (RBytes (''alice joined'' @ [NUL]))),
      SHandler 1 (HReadRes (RBytes (''alice: hello'' @ [NL, NUL]))), SHandler 1 HTick,
      SHandler 0 HTick]"

definition coalesce_prefix :: "sevent list" where
  "coalesce_prefix =
     SAccept # replicate 9 SMainTick @ replicate 6 (SHandler 0 HTick)
     @ [SWrite 0, SWrite 0, SWrite 0, SExitW 0,
        SHandler 0 (HReadRes (RBytes (''alice joined'' @ [NUL] @ ''alice: hello'' @ [NL, NUL]
                                       @ ''alice exited'' @ [NUL])))]
     @ replicate 4 (SHandler 0 HTick)"

definition coalesce_run :: "sevent list" where
  "coalesce_run = coalesce_prefix @ SHandler 0 (HReadRes REof) # replicate 5 (SHandler 0 HTick)"

lemmas sys_eval_simps =
  run_eval_simps Let_def cstr_def valid_read_def printf_line_def read_into_def system_init_def
  lowest_free_def lift_srv_def set_proc_def

lemma e2e_frames:
  "client_frames e2e_input = [''alice joined'' @ [NUL], ''alice: hello'' @ [NL, NUL], ''alice exited'' @ [NUL]]"
  by (simp add: client_frames_def e2e_input_def) code_simp


text \<open>
  C13. One client takes every slot.  While a client holds the pipe open for writing,
  \<open>open(SERVER_PIPE_NAME, O_RDONLY)\<close> at line 96 returns at once, so the acceptance
  loop admits a new "connection" on every round without any client arriving: with a
  single client connected, which has not written a byte, the server creates ten
  handlers and the count reaches \<open>MAX_CLIENTS\<close>, so every later client is rejected.
  The spec's \<open>openForRead()\<close> blocks until a peer opens the other end.
\<close>

theorem single_client_fills_server:
  "\<exists>S. sreach S \<and> length (procs S) = 1 \<and> wlog S = []
       \<and> int (length (handlers (srv S))) = MAX_CLIENTS
       \<and> connectedClientsCount (reg (srv S)) = MAX_CLIENTS"
proof -
  obtain S where run: "s_run fill_run (system_init [e2e_input]) = Some S"
    and p: "length (procs S) = 1 \<and> wlog S = [] \<and> length (handlers (srv S)) = 10
            \<and> connectedClientsCount (reg (srv S)) = 10"
    by (simp add: fill_run_def sys_eval_simps)
  from sreach_by_run [OF _ run] p show ?thesis by auto
qed

text \<open>
  C14. The order of one client's messages is not kept.  Every handler reads the same
  pipe, so two handlers started for one client (C13) can each read one of its frames;
  each prints at line 47 when it is scheduled, and the sink receives
  \<open>alice: hello\<close> before \<open>alice joined\<close>.  The spec's end-to-end property wants the
  payloads in order for a single client.
\<close>

theorem client_order_inverted:
  "\<exists>S. sreach S \<and> length (procs S) = 1
       \<and> stdout (srv S) = [Line ''Server initialized'', Line (''alice: hello'' @ [NL]), Line ''alice joined'']"
proof -
  obtain S where run: "s_run inversion_run (system_init [e2e_input]) = Some S"
    and p: "length (procs S) = 1
       \<and> stdout (srv S) = [Line ''Server initialized'', Line (''alice: hello'' @ [NL]), Line ''alice joined'']"
    using e2e_frames by (simp add: inversion_run_def two_handlers_run_def sys_eval_simps)
  from sreach_by_run [OF _ run] p show ?thesis by auto
qed

text \<open>
  C15. Messages are lost for good.  When one \<open>read\<close> returns the whole session, the
  handler prints only the first frame; the client exits, the handler reads
  end-of-stream and exits, and the sink has received only \<open>alice joined\<close> although
  every byte was written and read.  The spec wants the union of messages received to
  equal the union sent.
\<close>

theorem client_messages_lost:
  "\<exists>S. sreach S \<and> list_all (\<lambda>p. cst p = CGone) (procs S) \<and> pbuf (fifo S) = []
       \<and> rlog S = wlog S \<and> length (wlog S) = 40 \<and> hpc (handlers (srv S) ! 0) = HExit
       \<and> stdout (srv S) = [Line ''Server initialized'', Line ''alice joined'']"
proof -
  obtain S where run: "s_run coalesce_run (system_init [e2e_input]) = Some S"
    and p: "list_all (\<lambda>p. cst p = CGone) (procs S) \<and> pbuf (fifo S) = []
       \<and> rlog S = wlog S \<and> length (wlog S) = 40 \<and> hpc (handlers (srv S) ! 0) = HExit
       \<and> stdout (srv S) = [Line ''Server initialized'', Line ''alice joined'']"
    using e2e_frames by (simp add: coalesce_run_def coalesce_prefix_def sys_eval_simps)
  from sreach_by_run [OF _ run] p show ?thesis by auto
qed

text \<open>
  C16. The mutex does not give mutual exclusion.  The extra unlock at line 42 releases
  the mutex while another thread holds it, so there is a reachable state in which
  the main thread is inside the critical section of lines 110--115 and handler 0 is
  inside the one of lines 59--64 at the same time.
\<close>

theorem mutual_exclusion_violated:
  "\<exists>s. reach s \<and> in_critical Main s \<and> in_critical (Worker 0) s"
proof -
  obtain s where run: "run mutex_break_run (server_start 3) = Some s"
    and cs: "in_critical Main s \<and> in_critical (Worker 0) s"
    by (simp add: mutex_break_run_def run_eval_simps)
  from reach_by_run [OF demo_env_init run] cs show ?thesis by blast
qed

text \<open>
  C17. A descriptor can be handed to two handlers and another lost.  The handler reads
  \<open>clientFd\<close> through the pointer \<open>&clientFd\<close> when it first runs; if main has already
  opened the next connection, two handlers own descriptor 5 while descriptor 4 is
  owned by no handler and never closed.
\<close>

theorem client_fd_aliased:
  "\<exists>s. reach s \<and> length (handlers s) = 2
       \<and> hpc (handlers s ! 0) = HLock0 \<and> hpc (handlers s ! 1) = HLock0
       \<and> hfd (handlers s ! 0) = 5 \<and> hfd (handlers s ! 1) = 5
       \<and> list_all (\<lambda>h. hfd h \<noteq> 4) (handlers s) \<and> 4 \<notin> set (closed s)"
proof -
  obtain s where run: "run alias_run (server_start 3) = Some s"
    and p: "length (handlers s) = 2
       \<and> hpc (handlers s ! 0) = HLock0 \<and> hpc (handlers s ! 1) = HLock0
       \<and> hfd (handlers s ! 0) = 5 \<and> hfd (handlers s ! 1) = 5
       \<and> list_all (\<lambda>h. hfd h \<noteq> 4) (handlers s) \<and> 4 \<notin> set (closed s)"
    by (simp add: alias_run_def run_eval_simps)
  from reach_by_run [OF demo_env_init run] p show ?thesis by blast
qed

text \<open>
  C18. A failed \<open>open\<close> in the loop is not fatal (the spec says it is): the result -1
  is not checked, the connection is admitted, and a handler is started on
  descriptor -1.
\<close>

theorem failed_open_admitted:
  "\<exists>s. reach s \<and> handlers s \<noteq> [] \<and> hpc (hd (handlers s)) = HLock0
       \<and> hfd (hd (handlers s)) = -1 \<and> connectedClientsCount (reg s) = 1"
proof -
  obtain s where run: "run failed_open_run (server_start 3) = Some s"
    and p: "handlers s \<noteq> [] \<and> hpc (hd (handlers s)) = HLock0
       \<and> hfd (hd (handlers s)) = -1 \<and> connectedClientsCount (reg s) = 1"
    by (simp add: failed_open_run_def run_eval_simps)
  from reach_by_run [OF demo_env_init run] p show ?thesis by blast
qed

text \<open>
  C19. A handler's whole life leaves \<open>connectedClientsCount\<close> as it found it: run
  alone from its creation to its exit, with \<open>exitFlag\<close> clear, it adds as much as it
  removes, so the increment main made when admitting it is never undone.
\<close>

theorem handler_lifecycle_keeps_count:
  assumes "handler_run t is arg r handler_new = Some (r', h', es)"
    and "exitFlag r = 0" and "hpc h' = HExit"
  shows "connectedClientsCount r' = connectedClientsCount r"
proof -
  have "hpc handler_new \<noteq> HUnlockBreak" and "reg_fresh r handler_new"
    by (simp_all add: reg_fresh_def)
  from handler_run_count [OF assms(1,2) this] assms(3)
  show ?thesis by (simp add: contrib_def)
qed

theorem handler_lifecycle_keeps_count_witness:
  "\<exists>r' h' es.
     handler_run (Worker 0) (replicate 6 HTick @ HReadRes REof # replicate 5 HTick) 7
       registry_init handler_new = Some (r', h', es)
     \<and> exitFlag registry_init = 0 \<and> hpc h' = HExit
     \<and> connectedClientsCount r' = connectedClientsCount registry_init"
proof -
  obtain r' h' es where
    run: "handler_run (Worker 0) (replicate 6 HTick @ HReadRes REof # replicate 5 HTick) 7
            registry_init handler_new = Some (r', h', es)" and ex: "hpc h' = HExit"
    by (simp add: run_eval_simps handler_new_def)
  from handler_lifecycle_keeps_count [OF run _ ex] run ex show ?thesis by auto
qed

text \<open>
  C20. A handler whose peer has hung up releases its slot exactly once: from the read
  at line 45 returning 0, with the mutex free, it locks, decrements
  \<open>connectedClientsCount\<close> by one (a load and a store), unlocks, closes its descriptor
  and exits, in six steps.
\<close>

theorem handler_eof_releases_once:
  assumes "clientsMutex r = None" and "hpc h = HRead"
  shows "\<exists>r' h'. handler_run t [HReadRes REof, HTick, HTick, HTick, HTick, HTick] arg r h
                  = Some (r', h', [HNone, HNone, HNone, HNone, HNone, HCloseFd (hfd h)])
           \<and> connectedClientsCount r' = connectedClientsCount r - 1
           \<and> clientsMutex r' = None \<and> hpc h' = HExit"
  using assms by (simp add: step_simps)

theorem handler_eof_releases_once_witness:
  "\<exists>r' h'. handler_run (Worker 0) [HReadRes REof, HTick, HTick, HTick, HTick, HTick] 7
             (registry_init\<lparr>connectedClientsCount := 2\<rparr>) (handler_new\<lparr>hpc := HRead, hfd := 7\<rparr>)
           = Some (r', h', [HNone, HNone, HNone, HNone, HNone, HCloseFd 7])
         \<and> connectedClientsCount r' = 1 \<and> clientsMutex r' = None \<and> hpc h' = HExit"
  using handler_eof_releases_once [of "registry_init\<lparr>connectedClientsCount := 2\<rparr>"
      "handler_new\<lparr>hpc := HRead, hfd := 7\<rparr>" "Worker 0" 7]
  by simp

text \<open>
  C21. A handler that leaves because \<open>exitFlag\<close> is set does not release its slot:
  from the lock of line 59 it tests the flag, unlocks, closes its descriptor and
  exits with \<open>connectedClientsCount\<close> unchanged, unlike the end-of-stream path (C20).
\<close>

theorem handler_shutdown_keeps_slot:
  assumes "clientsMutex r = None" and "exitFlag r \<noteq> 0" and "hpc h = HLockExit"
  shows "\<exists>r' h'. handler_run t [HTick, HTick, HTick, HTick] arg r h
                  = Some (r', h', [HNone, HNone, HNone, HCloseFd (hfd h)])
           \<and> connectedClientsCount r' = connectedClientsCount r \<and> hpc h' = HExit"
  using assms by (simp add: step_simps)

theorem handler_shutdown_keeps_slot_witness:
  "\<exists>r' h'. handler_run (Worker 0) [HTick, HTick, HTick, HTick] 7
             (registry_init\<lparr>connectedClientsCount := 2, exitFlag := 1\<rparr>)
             (handler_new\<lparr>hpc := HLockExit, hfd := 7\<rparr>)
           = Some (r', h', [HNone, HNone, HNone, HCloseFd 7])
         \<and> connectedClientsCount r' = 2 \<and> hpc h' = HExit"
  using handler_shutdown_keeps_slot [of "registry_init\<lparr>connectedClientsCount := 2, exitFlag := 1\<rparr>"
      "handler_new\<lparr>hpc := HLockExit, hfd := 7\<rparr>" "Worker 0" 7]
  by simp

text \<open>
  C22. Messages that arrive in one read are lost but the first.  The client writes each
  message with its terminating NUL; when one \<open>read\<close> (line 45) returns two of them,
  \<open>printf("%s")\<close> (line 47) stops at the first NUL and the rest of the bytes are never
  printed.
\<close>

theorem coalesced_messages_lost:
  assumes "NUL \<notin> set m1" and "valid_read (m1 @ NUL # m2)" and "hpc h = HRead"
  shows "\<exists>h'. handler_run t [HReadRes (RBytes (m1 @ NUL # m2)), HTick] arg r h
               = Some (r, h', [HNone, HPrint (Line m1)]) \<and> hpc h' = HLockExit"
  using assms by (simp add: printf_line_def read_into_def)

theorem coalesced_messages_lost_witness:
  "\<exists>h'. handler_run (Worker 0)
          [HReadRes (RBytes (''alice joined'' @ NUL # ''alice: hello'' @ [NUL])), HTick] 7
          registry_init (handler_new\<lparr>hpc := HRead\<rparr>)
        = Some (registry_init, h', [HNone, HPrint (Line ''alice joined'')]) \<and> hpc h' = HLockExit"
  using coalesced_messages_lost [of "''alice joined''" "''alice: hello'' @ [NUL]"
      "handler_new\<lparr>hpc := HRead\<rparr>" "Worker 0" 7 registry_init]
  by (simp add: valid_read_def)

text \<open>
  C23. A full read with no NUL makes \<open>printf("%s")\<close> run past the buffer: when
  \<open>read\<close> fills all 256 bytes without a terminator (a message longer than the
  buffer, or the first part of one), the line printed is an out-of-bounds read.
\<close>

theorem unterminated_read_overreads:
  assumes "NUL \<notin> set bs" and "length bs = HANDLER_BUFSIZE"
    and "length (buffer h) \<le> HANDLER_BUFSIZE" and "hpc h = HRead"
  shows "handler_run t [HReadRes (RBytes bs), HTick] arg r h
           = Some (r, h\<lparr>hpc := HLockExit, buffer := bs\<rparr>, [HNone, HPrint (Overread bs)])"
proof -
  from assms(2) have "bs \<noteq> []" by auto
  with assms show ?thesis by (simp add: valid_read_def read_into_def printf_line_def)
qed

theorem unterminated_read_overreads_witness:
  "handler_run (Worker 0) [HReadRes (RBytes (replicate 256 (CHR ''a''))), HTick] 7
     registry_init (handler_new\<lparr>hpc := HRead\<rparr>)
   = Some (registry_init, handler_new\<lparr>hpc := HLockExit, buffer := replicate 256 (CHR ''a'')\<rparr>,
           [HNone, HPrint (Overread (replicate 256 (CHR ''a'')))])"
  using unterminated_read_overreads [of "replicate 256 (CHR ''a'')" "handler_new\<lparr>hpc := HRead\<rparr>"
      "Worker 0" 7 registry_init]
  by simp

section \<open>The client\<close>

text \<open>
  C24. The password check accepts every first line whose first eight bytes are
  \<open>password\<close>, not only the password itself: \<open>strncmp\<close> is bounded by
  \<open>strlen(AUTH_PASSWORD)\<close>.  On such a line the client goes on to the chat loop on
  the descriptor it opened, with the rest of stdin.
\<close>

theorem password_prefix_accepted:
  assumes "open_retry opens = Some (fd, opens')" and "fgets USERNAME_SIZE inp = Some (pw, rest)"
    and "take 8 (cstr pw) = ''password''"
  shows "client_main (Suc n) opens (client_init inp ws)
           = chat_loop n ((client_init rest ws)\<lparr>c_serverFd := fd\<rparr>)"
proof -
  from assms(3) have ok: "password_ok pw" by (simp add: password_ok_prefix)
  have fd: "fd \<noteq> -1" using open_retry_Some [OF assms(1)] .
  have "fst (chat_loop n ((client_init inp ws)\<lparr>c_serverFd := fd, c_stdin := rest\<rparr>)) \<noteq> Reconnect"
    by (rule chat_loop_no_reconnect) (simp add: fd)
  with assms(1,2) ok show ?thesis
    by (auto simp: client_init_def split: prod.splits client_outcome.splits)
qed

theorem password_prefix_accepted_witness:
  "client_main 3 [4] (client_init ''password123\<newline>bob\<newline>'' [])
     = chat_loop 2 ((client_init ''bob\<newline>'' [])\<lparr>c_serverFd := 4\<rparr>)"
proof -
  have o: "open_retry [4] = Some (4, [])" by simp
  have f: "fgets USERNAME_SIZE ''password123\<newline>bob\<newline>'' = Some (''password123\<newline>'', ''bob\<newline>'')"
    by (simp add: fgets_def line_len_def USERNAME_SIZE_def)
  have p: "take 8 (cstr ''password123\<newline>'') = ''password''"
    by (simp add: cstr_def)
  from password_prefix_accepted [OF o f p, of 2 "[]"] show ?thesis
    by (simp add: numeral_eq_Suc)
qed

text \<open>
  C25. Any message line that begins with \<open>exit\<close> is taken as the quit command
  (line 73 compares only four bytes), so \<open>exiting now\<close> ends the session.
\<close>

theorem exit_command_is_prefix:
  "is_exit_command m \<longleftrightarrow> take 4 (cstr m) = ''exit''"
proof -
  have len: "length ''exit'' = 4" by simp
  have "is_exit_command m \<longleftrightarrow> strncmp (cstr m) ''exit'' (length ''exit'') = 0"
    unfolding is_exit_command_def len ..
  also have "\<dots> \<longleftrightarrow> take (length ''exit'') (cstr m) = ''exit''"
    by (rule strncmp_literal) simp
  finally show ?thesis by (simp only: len)
qed

theorem exit_command_is_prefix_witness:
  "is_exit_command ''exiting now\<newline>'' \<and> \<not> is_exit_command ''exi\<newline>''"
  using exit_command_is_prefix [of "''exiting now\<newline>''"] exit_command_is_prefix [of "''exi\<newline>''"]
  by (simp add: cstr_def)

text \<open>
  C26. Every frame the client writes is at most 307 bytes, whatever its input: the
  username holds at most 49 bytes and a message line at most 255, so \<open>snprintf\<close> into
  the 512-byte \<open>fullMessage\<close> never truncates.
\<close>

theorem client_frames_bounded:
  "list_all (\<lambda>f. length f \<le> 307) (c_frames (snd (client_main n opens (client_init inp ws))))"
proof -
  have "client_wf (client_init inp ws)" by (simp add: client_wf_def client_init_def)
  with client_main_wf [OF prod.collapse [symmetric]] show ?thesis
    by (simp add: client_wf_def)
qed

text \<open>
  C27. The reconnect branch of lines 67--70 is dead: \<open>serverFd\<close> is never -1 inside the
  chat loop (the loop of line 25 only ends on a valid descriptor), so the outer loop
  never goes round a second time.
\<close>

theorem reconnect_branch_dead:
  assumes "c_serverFd c \<noteq> -1"
  shows "fst (chat_loop n c) \<noteq> Reconnect"
  using chat_loop_no_reconnect [OF assms] .

theorem reconnect_branch_dead_witness:
  "c_serverFd ((client_init e2e_input [])\<lparr>c_serverFd := 4\<rparr>) \<noteq> -1
   \<and> fst (chat_loop 3 ((client_init e2e_input [])\<lparr>c_serverFd := 4\<rparr>)) \<noteq> Reconnect"
  using reconnect_branch_dead [of "(client_init e2e_input [])\<lparr>c_serverFd := 4\<rparr>" 3] by simp

text \<open>
  C28. A first line that does not begin with \<open>password\<close> ends the client with exit
  code 1 before anything is written to the server.
\<close>

theorem wrong_password_exits:
  assumes "open_retry opens \<noteq> None" and "fgets USERNAME_SIZE inp = Some (pw, rest)"
    and "take 8 (cstr pw) \<noteq> ''password''"
  shows "fst (client_main (Suc n) opens (client_init inp ws)) = Exited 1
         \<and> c_frames (snd (client_main (Suc n) opens (client_init inp ws))) = []"
proof -
  from assms(3) have "\<not> password_ok pw" by (simp add: password_ok_prefix)
  with assms(1,2) show ?thesis by (auto simp: client_init_def)
qed

theorem wrong_password_exits_witness:
  "fst (client_main 3 [-1, 4] (client_init ''hunter2\<newline>'' [])) = Exited 1
   \<and> c_frames (snd (client_main 3 [-1, 4] (client_init ''hunter2\<newline>'' []))) = []"
proof -
  have o: "open_retry [-1, 4] \<noteq> None" by simp
  have f: "fgets USERNAME_SIZE ''hunter2\<newline>'' = Some (''hunter2\<newline>'', [])"
    by (simp add: fgets_def line_len_def USERNAME_SIZE_def)
  have p: "take 8 (cstr ''hunter2\<newline>'') \<noteq> ''password''"
    by (simp add: cstr_def)
  from wrong_password_exits [OF o f p, of 2 "[]"] show ?thesis
    by (simp add: numeral_eq_Suc)
qed

text \<open>
  C29. A chat message is sent with the newline \<open>fgets\<close> kept: for any joined client
  whose writes succeed, a line \<open>m\<close> of fewer than 255 bytes that does not begin with
  \<open>exit\<close> is written as the frame \<open><username>: m\n\<close> with its NUL: \<open>fgets\<close> at line 64
  keeps the newline and line 89 formats the whole buffer.  The server therefore prints an empty line
  after every message; the spec's scenario wants the payload \<open>alice: hello\<close>.
\<close>

theorem client_message_keeps_newline:
  assumes "usernameJoined c" and "c_serverFd c \<noteq> -1" and "c_write_ok c = []"
    and "NL \<notin> set m" and "NUL \<notin> set m" and "length m < 255" and "take 4 m \<noteq> ''exit''"
    and "NUL \<notin> set (c_username c)" and "length (c_username c) \<le> 49"
  shows "chat_iter (c\<lparr>c_stdin := m @ NL # rest\<rparr>)
           = Inr (c\<lparr>c_stdin := rest, c_frames := c_frames c @ [c_username c @ '': '' @ m @ [NL, NUL]]\<rparr>)"
proof -
  have tw: "takeWhile (\<lambda>x. x \<noteq> NL) (m @ NL # rest) = m"
    using assms(4) by (auto simp: takeWhile_append2 takeWhile_tail)
  have fg: "fgets MESSAGE_SIZE (m @ NL # rest) = Some (m @ [NL], rest)"
    using assms(6) by (simp add: fgets_def line_len_def tw MESSAGE_SIZE_def)
  have len: "length ''exit'' = 4" by simp
  have nx: "\<not> is_exit_command (m @ [NL])"
  proof -
    have "is_exit_command (m @ [NL]) \<longleftrightarrow> strncmp (cstr (m @ [NL])) ''exit'' (length ''exit'') = 0"
      unfolding is_exit_command_def len ..
    also have "\<dots> \<longleftrightarrow> take (length ''exit'') (cstr (m @ [NL])) = ''exit''"
      by (rule strncmp_literal) simp
    also have "\<dots> \<longleftrightarrow> take 4 (m @ [NL]) = ''exit''"
      using assms(5) unfolding len by simp
    finally show ?thesis using exit_take_nl [OF assms(4,7)] by simp
  qed
  have sn: "snprintf FULLMESSAGE_SIZE (c_username c @ '': '' @ cstr (m @ [NL]))
              = c_username c @ '': '' @ m @ [NL]"
    using assms(5,6,9) by (simp add: snprintf_def FULLMESSAGE_SIZE_def)
  have cs: "cstr (c_username c @ '': '' @ m @ [NL]) = c_username c @ '': '' @ m @ [NL]"
    using assms(5,8) by simp
  show ?thesis
    using assms(1,2,3,5) fg nx sn cs
    by (simp add: chat_iter_def client_write_def Let_def)
qed

theorem client_message_keeps_newline_witness:
  "chat_iter (((client_init [] [])\<lparr>usernameJoined := True, c_serverFd := 4, c_username := ''alice''\<rparr>)
                \<lparr>c_stdin := ''hello'' @ NL # ''exit\<newline>''\<rparr>)
   = Inr (((client_init [] [])\<lparr>usernameJoined := True, c_serverFd := 4, c_username := ''alice''\<rparr>)
            \<lparr>c_stdin := ''exit\<newline>'', c_frames := [''alice: hello'' @ [NL, NUL]]\<rparr>)"
  using client_message_keeps_newline
      [of "(client_init [] [])\<lparr>usernameJoined := True, c_serverFd := 4, c_username := ''alice''\<rparr>"
        "''hello''" "''exit\<newline>''"]
  by (simp add: client_init_def)

section \<open>The mutex's owner at line 42\<close>

text \<open>
  C30. The second \<open>pthread_mutex_unlock\<close> of the handler (line 42) is always an unlock by
  a thread that does not hold the mutex, on every run: whenever the mutex has a holder,
  that thread is inside one of its critical sections, and a handler about to run
  line 42 is not.  POSIX leaves such an unlock undefined; glibc's default mutex
  releases it for whoever holds it, which is how C16 arises.
\<close>

theorem extra_unlock_by_non_owner:
  assumes "reach s" and "k < length (handlers s)" and "hpc (handlers s ! k) = HUnlock0b"
  shows "\<not> unlock_defined (Worker k) (reg s)"
proof
  assume "unlock_defined (Worker k) (reg s)"
  then have "clientsMutex (reg s) = Some (Worker k)" by (simp add: unlock_defined_def)
  with reach_holder_inv [OF assms(1)] have "in_critical (Worker k) s"
    by (simp add: holder_inv_def)
  with assms(3) show False by (simp add: handler_cs_def)
qed

theorem extra_unlock_by_non_owner_witness:
  "reach over_capacity_state \<and> 0 < length (handlers over_capacity_state)
   \<and> hpc (handlers over_capacity_state ! 0) = HUnlock0b
   \<and> \<not> unlock_defined (Worker 0) (reg over_capacity_state)"
proof -
  have k: "0 < length (handlers over_capacity_state)" and
    l: "hpc (handlers over_capacity_state ! 0) = HUnlock0b"
    using over_capacity_run_eval by simp_all
  from extra_unlock_by_non_owner [OF reach_over_capacity_state k l] reach_over_capacity_state k l
  show ?thesis by simp
qed

end
